theory Spec2Isabelle
  imports Main "HOL-Library.AList"
begin

section \<open>Shared wire data\<close>

text \<open>
  The relay (server/index.js) and the client (client/src/App.tsx) exchange JSON objects
  over socket.io. The same shapes are used on both sides.
\<close>

text \<open>The \<^verbatim>\<open>User\<close> interface of App.tsx and the object literal built in the relay:
  \<^verbatim>\<open>{ id, username, roomCode, isAudioEnabled }\<close>.\<close>

record user =
  u_id :: string
  u_username :: string
  u_roomCode :: string
  u_isAudioEnabled :: bool

text \<open>The chat message built by the \<^verbatim>\<open>send-message\<close> handler. The timestamp
  (\<^verbatim>\<open>new Date()\<close>) is a number supplied by the environment.\<close>

record message =
  m_id :: string
  m_text :: string
  m_sender :: string
  m_senderId :: string
  m_timestamp :: nat
  m_type :: string

text \<open>\<^verbatim>\<open>RTCSessionDescriptionInit\<close> (type and SDP text) and an ICE candidate, as
  they travel through the relay.\<close>

datatype sdp_type = SdpOffer | SdpAnswer | SdpPranswer | SdpRollback

record desc =
  d_type :: sdp_type
  d_sdp :: string

type_synonym candidate = string

text \<open>Events the relay emits to clients, one constructor per event name.\<close>

datatype server_event =
    ErrorEv string
  | UserJoined user "user list"
  | RoomJoined string "user list" "message list"
  | RoomCreated string "user list"
  | OfferEv desc string
  | AnswerEv desc string
  | IceCandidateEv candidate string
  | NewMessage message
  | UserMediaChanged string bool
  | UserLeft string "user list"

text \<open>Events a client emits to the relay (the \<^verbatim>\<open>socket.on\<close> handlers of the relay),
  and \<^verbatim>\<open>Disconnect\<close> for the transport's disconnect notification.\<close>

datatype client_msg =
    JoinRoom string string
  | CreateRoom string
  | OfferMsg string desc
  | AnswerMsg string desc
  | IceCandidateMsg string candidate
  | SendMessage string
  | ToggleAudio
  | Disconnect

section \<open>The relay: server/index.js\<close>

text \<open>
  \<^verbatim>\<open>const rooms = new Map(); const users = new Map();\<close>
  A room object holds \<^verbatim>\<open>code\<close>, \<^verbatim>\<open>created\<close>, \<^verbatim>\<open>users\<close> (a Map from socket id to
  user object, iterated in insertion order) and \<^verbatim>\<open>messages\<close>. A user object is shared
  between \<^verbatim>\<open>users\<close> and the room's \<^verbatim>\<open>users\<close> Map (the handlers store
  \<^verbatim>\<open>users.get(socket.id)\<close> in the room), and \<^verbatim>\<open>toggle-audio\<close> mutates it in place, so
  user objects live in an explicit store \<open>objs\<close> addressed by reference; \<open>nxt\<close> is the
  next unused reference.
\<close>

record room =
  r_code :: string
  r_created :: nat
  r_users :: "(string \<times> nat) list"
  r_messages :: "message list"

record server =
  rooms :: "string \<rightharpoonup> room"
  users :: "string \<rightharpoonup> nat"
  objs :: "nat \<Rightarrow> user"
  nxt :: nat

text \<open>What a handler does besides changing the two Maps: \<^verbatim>\<open>socket.join(r)\<close>,
  \<^verbatim>\<open>socket.emit\<close> (to the sender), \<^verbatim>\<open>socket.to(r).emit\<close> (addressed to \<open>r\<close>:
  a room code, or a socket id, since every socket is in the room named by its own id;
  the sender is excepted) and \<^verbatim>\<open>io.to(r).emit\<close> (to the whole room).\<close>

datatype address = ToSender | To string | ToAll string

datatype action = SocketJoin string | Emit address server_event

text \<open>Values the handlers obtain from the environment: the string returned by
  \<^verbatim>\<open>generateRoomCode()\<close> (it is computed from \<^verbatim>\<open>Math.random()\<close> alone and takes no
  argument), the clock \<^verbatim>\<open>new Date()\<close> and \<^verbatim>\<open>uuidv4()\<close>.\<close>

record env =
  generateRoomCode :: string
  now :: nat
  uuidv4 :: string

definition init_server :: server where
  "init_server = \<lparr>rooms = Map.empty, users = Map.empty,
     objs = (\<lambda>_. \<lparr>u_id = [], u_username = [], u_roomCode = [], u_isAudioEnabled = False\<rparr>),
     nxt = 0\<rparr>"

text \<open>\<^verbatim>\<open>Array.from(room.users.values())\<close>, serialised when it is emitted.\<close>

definition snapshot :: "(nat \<Rightarrow> user) \<Rightarrow> room \<Rightarrow> user list" where
  "snapshot h r = map (\<lambda>(k, p). h p) (r_users r)"

text \<open>The part common to \<^verbatim>\<open>join-room\<close> and \<^verbatim>\<open>create-room\<close>:
  \<^verbatim>\<open>users.set(socket.id, {...})\<close>, the new object allocated at reference \<open>nxt\<close>.\<close>

definition store_user :: "server \<Rightarrow> string \<Rightarrow> string \<Rightarrow> string \<Rightarrow> server" where
  "store_user s sid username roomCode =
     s\<lparr>objs := (objs s)(nxt s := \<lparr>u_id = sid, u_username = username,
                                   u_roomCode = roomCode, u_isAudioEnabled = True\<rparr>),
       users := (users s)(sid \<mapsto> nxt s),
       nxt := Suc (nxt s)\<rparr>"

definition on_join_room :: "server \<Rightarrow> string \<Rightarrow> string \<Rightarrow> string \<Rightarrow> server \<times> action list" where
  "on_join_room s sid roomCode username =
     (case rooms s roomCode of
        None \<Rightarrow> (s, [Emit ToSender (ErrorEv ''Room not found'')])
      | Some room \<Rightarrow>
          (let p = nxt s;
               s1 = store_user s sid username roomCode;
               room' = room\<lparr>r_users := AList.update sid p (r_users room)\<rparr>;
               s2 = s1\<lparr>rooms := (rooms s1)(roomCode \<mapsto> room')\<rparr>
           in (s2, [SocketJoin roomCode,
                    Emit (To roomCode) (UserJoined (objs s2 p) (snapshot (objs s2) room')),
                    Emit ToSender (RoomJoined roomCode (snapshot (objs s2) room')
                                     (r_messages room'))])))"

definition on_create_room :: "server \<Rightarrow> string \<Rightarrow> string \<Rightarrow> env \<Rightarrow> server \<times> action list" where
  "on_create_room s sid username e =
     (let roomCode = generateRoomCode e;
          room = \<lparr>r_code = roomCode, r_created = now e, r_users = [], r_messages = []\<rparr>;
          s1 = s\<lparr>rooms := (rooms s)(roomCode \<mapsto> room)\<rparr>;
          p = nxt s1;
          s2 = store_user s1 sid username roomCode;
          room' = room\<lparr>r_users := AList.update sid p (r_users room)\<rparr>;
          s3 = s2\<lparr>rooms := (rooms s2)(roomCode \<mapsto> room')\<rparr>
      in (s3, [SocketJoin roomCode,
               Emit ToSender (RoomCreated roomCode (snapshot (objs s3) room'))]))"

definition on_offer :: "server \<Rightarrow> string \<Rightarrow> string \<Rightarrow> desc \<Rightarrow> server \<times> action list" where
  "on_offer s sid target d = (s, [Emit (To target) (OfferEv d sid)])"

definition on_answer :: "server \<Rightarrow> string \<Rightarrow> string \<Rightarrow> desc \<Rightarrow> server \<times> action list" where
  "on_answer s sid target d = (s, [Emit (To target) (AnswerEv d sid)])"

definition on_ice_candidate :: "server \<Rightarrow> string \<Rightarrow> string \<Rightarrow> candidate \<Rightarrow> server \<times> action list" where
  "on_ice_candidate s sid target c = (s, [Emit (To target) (IceCandidateEv c sid)])"

definition on_send_message :: "server \<Rightarrow> string \<Rightarrow> string \<Rightarrow> env \<Rightarrow> server \<times> action list" where
  "on_send_message s sid txt e =
     (case users s sid of
        None \<Rightarrow> (s, [])
      | Some p \<Rightarrow>
          (let user = objs s p in
           case rooms s (u_roomCode user) of
             None \<Rightarrow> (s, [])
           | Some room \<Rightarrow>
               (let msg = \<lparr>m_id = uuidv4 e, m_text = txt, m_sender = u_username user,
                           m_senderId = sid, m_timestamp = now e, m_type = ''text''\<rparr>;
                    room' = room\<lparr>r_messages := r_messages room @ [msg]\<rparr>
                in (s\<lparr>rooms := (rooms s)(u_roomCode user \<mapsto> room')\<rparr>,
                    [Emit (ToAll (u_roomCode user)) (NewMessage msg)]))))"

definition on_toggle_audio :: "server \<Rightarrow> string \<Rightarrow> server \<times> action list" where
  "on_toggle_audio s sid =
     (case users s sid of
        None \<Rightarrow> (s, [])
      | Some p \<Rightarrow>
          (let user = (objs s p)\<lparr>u_isAudioEnabled := \<not> u_isAudioEnabled (objs s p)\<rparr>
           in (s\<lparr>objs := (objs s)(p := user)\<rparr>,
               [Emit (To (u_roomCode user))
                  (UserMediaChanged sid (u_isAudioEnabled user))])))"

definition on_disconnect :: "server \<Rightarrow> string \<Rightarrow> server \<times> action list" where
  "on_disconnect s sid =
     (case users s sid of
        None \<Rightarrow> (s, [])
      | Some p \<Rightarrow>
          (let user = objs s p in
           case rooms s (u_roomCode user) of
             None \<Rightarrow> (s\<lparr>users := (users s)(sid := None)\<rparr>, [])
           | Some room \<Rightarrow>
               (let room' = room\<lparr>r_users := AList.delete sid (r_users room)\<rparr>;
                    rooms1 = (rooms s)(u_roomCode user \<mapsto> room');
                    rooms2 = (if length (r_users room') = 0
                              then rooms1(u_roomCode user := None) else rooms1)
                in (s\<lparr>rooms := rooms2, users := (users s)(sid := None)\<rparr>,
                    [Emit (To (u_roomCode user))
                       (UserLeft sid (snapshot (objs s) room'))]))))"

text \<open>One event of the relay's event loop: the handler registered for the message,
  run for the socket \<open>sid\<close> that sent it.\<close>

fun server_step :: "server \<Rightarrow> string \<times> client_msg \<times> env \<Rightarrow> server \<times> action list" where
  "server_step s (sid, JoinRoom roomCode username, e) = on_join_room s sid roomCode username"
| "server_step s (sid, CreateRoom username, e) = on_create_room s sid username e"
| "server_step s (sid, OfferMsg target d, e) = on_offer s sid target d"
| "server_step s (sid, AnswerMsg target d, e) = on_answer s sid target d"
| "server_step s (sid, IceCandidateMsg target c, e) = on_ice_candidate s sid target c"
| "server_step s (sid, SendMessage txt, e) = on_send_message s sid txt e"
| "server_step s (sid, ToggleAudio, e) = on_toggle_audio s sid"
| "server_step s (sid, Disconnect, e) = on_disconnect s sid"

fun server_run :: "server \<Rightarrow> (string \<times> client_msg \<times> env) list \<Rightarrow> server" where
  "server_run s [] = s"
| "server_run s (ev # evs) = server_run (fst (server_step s ev)) evs"



subsection \<open>Who receives an emit\<close>

text \<open>
  The relay never names a recipient itself: it hands a room name to socket.io.
  socket.io keeps, for every room name, the set of sockets in that room. A socket is put
  into the room named by its own id when it connects, \<^verbatim>\<open>socket.join(r)\<close> adds it to
  \<open>r\<close>, and a socket that disconnects is taken out of every room. \<^verbatim>\<open>socket.emit\<close>
  reaches the socket itself, \<^verbatim>\<open>socket.to(r).emit\<close> every socket in \<open>r\<close> other than the
  emitting one, \<^verbatim>\<open>io.to(r).emit\<close> every socket in \<open>r\<close>. This table belongs to the
  socket.io library, not to the repository; it is what gives \<^verbatim>\<open>socket.to(data.target)\<close>
  a meaning, and room codes and socket ids are names in the same table.
\<close>

type_synonym adapter = "string \<Rightarrow> string set"

definition sio_connect :: "adapter \<Rightarrow> string \<Rightarrow> adapter" where
  "sio_connect a sid = a(sid := insert sid (a sid))"

definition sio_leave_all :: "adapter \<Rightarrow> string \<Rightarrow> adapter" where
  "sio_leave_all a sid = (\<lambda>r. a r - {sid})"

text \<open>The \<^verbatim>\<open>socket.join\<close> calls among the actions of a handler.\<close>

fun sio_join :: "adapter \<Rightarrow> string \<Rightarrow> action list \<Rightarrow> adapter" where
  "sio_join a sid [] = a"
| "sio_join a sid (SocketJoin r # acts) = sio_join (a(r := insert sid (a r))) sid acts"
| "sio_join a sid (Emit addr ev # acts) = sio_join a sid acts"

fun receivers :: "adapter \<Rightarrow> string \<Rightarrow> address \<Rightarrow> string set" where
  "receivers a sid ToSender = {sid}"
| "receivers a sid (To r) = a r - {sid}"
| "receivers a sid (ToAll r) = a r"

text \<open>The pairs (receiving socket, event) that the emits of socket \<open>sid\<close> produce.\<close>

fun delivered :: "adapter \<Rightarrow> string \<Rightarrow> action list \<Rightarrow> (string \<times> server_event) set" where
  "delivered a sid [] = {}"
| "delivered a sid (SocketJoin r # acts) = delivered a sid acts"
| "delivered a sid (Emit addr ev # acts) =
     (\<lambda>r. (r, ev)) ` receivers a sid addr \<union> delivered a sid acts"

text \<open>The table along a run of the relay.\<close>

fun sio_step :: "adapter \<Rightarrow> string \<times> client_msg \<times> env \<Rightarrow> action list \<Rightarrow> adapter" where
  "sio_step a (sid, Disconnect, e) acts = sio_leave_all a sid"
| "sio_step a (sid, m, e) acts = sio_join a sid acts"

fun sio_run :: "server \<Rightarrow> adapter \<Rightarrow> (string \<times> client_msg \<times> env) list \<Rightarrow> adapter" where
  "sio_run s a [] = a"
| "sio_run s a (ev # evs) =
     sio_run (fst (server_step s ev)) (sio_step a ev (snd (server_step s ev))) evs"

definition sio_connected :: "string list \<Rightarrow> adapter" where
  "sio_connected sids = foldl sio_connect (\<lambda>r. {}) sids"

section \<open>The browser's RTCPeerConnection, as App.tsx uses it\<close>

text \<open>
  App.tsx reads \<^verbatim>\<open>signalingState\<close> and \<^verbatim>\<open>connectionState\<close> and calls
  \<^verbatim>\<open>setRemoteDescription\<close>, \<^verbatim>\<open>setLocalDescription\<close>, \<^verbatim>\<open>createOffer\<close>,
  \<^verbatim>\<open>createAnswer\<close>, \<^verbatim>\<open>addIceCandidate\<close>, \<^verbatim>\<open>addTrack\<close> and \<^verbatim>\<open>close\<close>. These
  belong to the browser, not to the repository. They are modelled after the WebRTC
  signaling state machine (the offer/answer table of JSEP): a call made in a state that
  does not permit it is rejected and leaves the connection as it was, a closed connection
  rejects every call, and a new connection starts in \<^verbatim>\<open>stable\<close>. Whether the browser
  accepts the content of a description or candidate is not decided by the state; it is
  a parameter of each call (\<open>ok\<close>). A rejected promise is the result \<open>None\<close>.
\<close>

datatype signaling =
  Stable | HaveLocalOffer | HaveRemoteOffer | HaveLocalPranswer | HaveRemotePranswer | Closed

datatype connection_state =
  ConnNew | Connecting | Connected | Disconnected | Failed | ConnClosed

record track =
  t_id :: string
  t_enabled :: bool

record rtc =
  pc_userId :: string
  signalingState :: signaling
  connectionState :: connection_state
  remoteDescription :: "desc option"
  localDescription :: "desc option"
  pc_tracks :: "string list"
  pc_candidates :: "candidate list"

definition rtc_new :: "string \<Rightarrow> rtc" where
  "rtc_new userId = \<lparr>pc_userId = userId, signalingState = Stable, connectionState = ConnNew,
     remoteDescription = None, localDescription = None, pc_tracks = [], pc_candidates = []\<rparr>"

fun set_remote_next :: "sdp_type \<Rightarrow> signaling \<Rightarrow> signaling option" where
  "set_remote_next SdpOffer st =
     (if st = Stable \<or> st = HaveRemoteOffer then Some HaveRemoteOffer else None)"
| "set_remote_next SdpAnswer st =
     (if st = HaveLocalOffer \<or> st = HaveRemotePranswer then Some Stable else None)"
| "set_remote_next SdpPranswer st =
     (if st = HaveLocalOffer \<or> st = HaveRemotePranswer then Some HaveRemotePranswer else None)"
| "set_remote_next SdpRollback st =
     (if st = HaveRemoteOffer then Some Stable else None)"

fun set_local_next :: "sdp_type \<Rightarrow> signaling \<Rightarrow> signaling option" where
  "set_local_next SdpOffer st =
     (if st = Stable \<or> st = HaveLocalOffer then Some HaveLocalOffer else None)"
| "set_local_next SdpAnswer st =
     (if st = HaveRemoteOffer \<or> st = HaveLocalPranswer then Some Stable else None)"
| "set_local_next SdpPranswer st =
     (if st = HaveRemoteOffer \<or> st = HaveLocalPranswer then Some HaveLocalPranswer else None)"
| "set_local_next SdpRollback st =
     (if st = HaveLocalOffer then Some Stable else None)"

definition rtc_setRemoteDescription :: "rtc \<Rightarrow> desc \<Rightarrow> bool \<Rightarrow> rtc option" where
  "rtc_setRemoteDescription pc d ok =
     (case set_remote_next (d_type d) (signalingState pc) of
        None \<Rightarrow> None
      | Some st \<Rightarrow>
          if ok then Some (pc\<lparr>signalingState := st,
                 remoteDescription := (if d_type d = SdpRollback then None else Some d)\<rparr>)
          else None)"

definition rtc_setLocalDescription :: "rtc \<Rightarrow> desc \<Rightarrow> bool \<Rightarrow> rtc option" where
  "rtc_setLocalDescription pc d ok =
     (case set_local_next (d_type d) (signalingState pc) of
        None \<Rightarrow> None
      | Some st \<Rightarrow>
          if ok then Some (pc\<lparr>signalingState := st,
                 localDescription := (if d_type d = SdpRollback then None else Some d)\<rparr>)
          else None)"

definition rtc_createOffer :: "rtc \<Rightarrow> desc option \<Rightarrow> desc option" where
  "rtc_createOffer pc made = (if signalingState pc = Closed then None else made)"

definition rtc_createAnswer :: "rtc \<Rightarrow> desc option \<Rightarrow> desc option" where
  "rtc_createAnswer pc made =
     (if signalingState pc = HaveRemoteOffer \<or> signalingState pc = HaveLocalPranswer
      then made else None)"

definition rtc_addIceCandidate :: "rtc \<Rightarrow> candidate \<Rightarrow> bool \<Rightarrow> rtc option" where
  "rtc_addIceCandidate pc c ok =
     (if signalingState pc = Closed \<or> remoteDescription pc = None \<or> \<not> ok then None
      else Some (pc\<lparr>pc_candidates := pc_candidates pc @ [c]\<rparr>))"

definition rtc_addTrack :: "rtc \<Rightarrow> track \<Rightarrow> rtc" where
  "rtc_addTrack pc t = pc\<lparr>pc_tracks := pc_tracks pc @ [t_id t]\<rparr>"

definition rtc_close :: "rtc \<Rightarrow> rtc" where
  "rtc_close pc = pc\<lparr>signalingState := Closed, connectionState := ConnClosed\<rparr>"

text \<open>What the browser answers to the calls of one handler run: whether it accepts the
  description given to \<^verbatim>\<open>setRemoteDescription\<close> and to \<^verbatim>\<open>setLocalDescription\<close>, the
  answer \<^verbatim>\<open>createAnswer\<close> produces, the offer \<^verbatim>\<open>createOffer\<close> produces for the
  connection to a given user, whether it accepts a candidate, and the stream
  \<^verbatim>\<open>getUserMedia\<close> resolves with (\<open>None\<close>: the promise is rejected).\<close>

record browser =
  b_setRemote :: bool
  b_setLocal :: bool
  b_createAnswer :: "desc option"
  b_createOffer :: "string \<Rightarrow> desc option"
  b_addIce :: bool
  b_getUserMedia :: "track list option"

section \<open>The client: client/src/App.tsx\<close>

text \<open>
  What one render of the component holds: \<^verbatim>\<open>state\<close> (the interface \<^verbatim>\<open>AppState\<close>) and
  \<^verbatim>\<open>connectionAttempts\<close>. \<open>socket\<close> is \<^verbatim>\<open>state.socket\<close>, represented by its id; the
  field \<^verbatim>\<open>users\<close> is called \<open>users_c\<close> here. \<^verbatim>\<open>peerConnections\<close> is a
  \<^verbatim>\<open>Map<string, RTCPeerConnection>\<close>: it holds references to connection objects.
\<close>

record render =
  socket :: "string option"
  currentUser :: "user option"
  roomCode :: string
  users_c :: "user list"
  messages :: "message list"
  isInCall :: bool
  isAudioEnabled :: bool
  localStream :: "track list option"
  peerConnections :: "(string \<times> nat) list"
  connectionAttempts :: "string set"

text \<open>
  The client: the current \<^verbatim>\<open>state\<close> and \<^verbatim>\<open>connectionAttempts\<close>, and the
  RTCPeerConnection objects created so far. A connection object stays alive, and stays
  open, when its entry in the Map is overwritten or deleted, so the objects live in the
  store \<open>pcs\<close>, addressed by the order of their creation, \<open>npcs\<close> counting them.

  The callbacks of App.tsx are closures. A callback reads \<^verbatim>\<open>state\<close> and
  \<^verbatim>\<open>connectionAttempts\<close> as they were in the render that created it, and writes with
  \<^verbatim>\<open>setState(prev => ...)\<close>, which acts on the current state; fields of a connection
  object (\<^verbatim>\<open>signalingState\<close>) are read from the object itself. So each callback takes
  two states: \<open>view\<close>, what it reads as \<^verbatim>\<open>state\<close>, and \<open>s\<close>, the client it acts
  on. A callback runs to its end, promise continuations included, before the next one
  starts. Console output, the audio elements of the page, the form fields and the
  five-second alert timers are left out.
\<close>

record client = render +
  pcs :: "nat \<Rightarrow> rtc"
  npcs :: nat

datatype rtc_call =
    SetRemoteDescription desc
  | SetLocalDescription desc
  | CreateOffer
  | CreateAnswer
  | AddIceCandidate candidate
  | AddTrack string
  | Close

text \<open>What a handler does besides changing the state: \<^verbatim>\<open>socket.emit\<close>,
  \<^verbatim>\<open>new RTCPeerConnection\<close> (with the user id its callbacks capture), a call on a
  connection, \<^verbatim>\<open>alert\<close>.\<close>

datatype client_action =
    SockEmit client_msg
  | NewPeerConnection nat string
  | PcCall nat rtc_call
  | Alert string

definition init_client :: client where
  "init_client = \<lparr>socket = None, currentUser = None, roomCode = [], users_c = [],
     messages = [], isInCall = False, isAudioEnabled = True, localStream = None,
     peerConnections = [], connectionAttempts = {}, pcs = (\<lambda>_. rtc_new []), npcs = 0\<rparr>"

text \<open>\<^verbatim>\<open>state.socket.emit(...)\<close> under \<^verbatim>\<open>if (state.socket)\<close>.\<close>

definition emit_if_socket :: "'v render_scheme \<Rightarrow> client_msg \<Rightarrow> client_action list" where
  "emit_if_socket view m = (case socket view of None \<Rightarrow> [] | Some sid \<Rightarrow> [SockEmit m])"

text \<open>\<^verbatim>\<open>createPeerConnection(userId)\<close>: the new object is stored at \<open>npcs\<close>.\<close>

definition createPeerConnection :: "client \<Rightarrow> string \<Rightarrow> client \<times> client_action list" where
  "createPeerConnection s userId =
     (s\<lparr>pcs := (pcs s)(npcs s := rtc_new userId), npcs := Suc (npcs s)\<rparr>,
      [NewPeerConnection (npcs s) userId])"

text \<open>\<^verbatim>\<open>cleanupPeerConnection(userId)\<close>: the connection is looked up in
  \<^verbatim>\<open>state.peerConnections\<close>; the entry is deleted from a copy of \<^verbatim>\<open>prev.peerConnections\<close>.\<close>

definition cleanupPeerConnection ::
  "'v render_scheme \<Rightarrow> client \<Rightarrow> string \<Rightarrow> client \<times> client_action list" where
  "cleanupPeerConnection view s userId =
     (case map_of (peerConnections view) userId of
        Some p \<Rightarrow>
          (s\<lparr>pcs := (pcs s)(p := rtc_close (pcs s p)),
             peerConnections := AList.delete userId (peerConnections s)\<rparr>,
           [PcCall p Close])
      | None \<Rightarrow> (s, []))"

text \<open>The body of the \<^verbatim>\<open>try\<close> block of \<^verbatim>\<open>handleOffer\<close>, for the connection \<open>p\<close>; a
  rejected call ends it in the \<^verbatim>\<open>catch\<close>, which only logs.\<close>

definition handleOffer_try ::
  "'v render_scheme \<Rightarrow> client \<Rightarrow> browser \<Rightarrow> nat \<Rightarrow> desc \<Rightarrow> string
     \<Rightarrow> client \<times> client_action list" where
  "handleOffer_try view s b p offer senderId =
     (if signalingState (pcs s p) = HaveLocalOffer \<or> signalingState (pcs s p) = HaveRemoteOffer
      then (s, [])
      else
        (case rtc_setRemoteDescription (pcs s p) offer (b_setRemote b) of
           None \<Rightarrow> (s, [PcCall p (SetRemoteDescription offer)])
         | Some pc1 \<Rightarrow>
             (case rtc_createAnswer pc1 (b_createAnswer b) of
                None \<Rightarrow> (s\<lparr>pcs := (pcs s)(p := pc1)\<rparr>,
                          [PcCall p (SetRemoteDescription offer), PcCall p CreateAnswer])
              | Some answer \<Rightarrow>
                  (case rtc_setLocalDescription pc1 answer (b_setLocal b) of
                     None \<Rightarrow> (s\<lparr>pcs := (pcs s)(p := pc1)\<rparr>,
                               [PcCall p (SetRemoteDescription offer), PcCall p CreateAnswer,
                                PcCall p (SetLocalDescription answer)])
                   | Some pc2 \<Rightarrow>
                       (s\<lparr>pcs := (pcs s)(p := pc2)\<rparr>,
                        [PcCall p (SetRemoteDescription offer), PcCall p CreateAnswer,
                         PcCall p (SetLocalDescription answer)]
                        @ emit_if_socket view (AnswerMsg senderId answer))))))"

definition handleOffer ::
  "'v render_scheme \<Rightarrow> client \<Rightarrow> browser \<Rightarrow> desc \<Rightarrow> string \<Rightarrow> client \<times> client_action list" where
  "handleOffer view s b offer senderId =
     (let (s1, a1, peerConnection) =
            (case map_of (peerConnections view) senderId of
               Some p \<Rightarrow>
                 if signalingState (pcs s p) = Closed
                 then (let (s', a') = cleanupPeerConnection view s senderId in (s', a', None))
                 else (s, [], Some p)
             | None \<Rightarrow> (s, [], None));
          (s2, a2, p) =
            (case peerConnection of
               Some p \<Rightarrow> (s1, [], p)
             | None \<Rightarrow>
                 (let (s', a') = createPeerConnection s1 senderId
                  in (s'\<lparr>peerConnections := AList.update senderId (npcs s1) (peerConnections s')\<rparr>,
                      a', npcs s1)));
          (s3, a3) = handleOffer_try view s2 b p offer senderId
      in (s3, a1 @ a2 @ a3))"

definition handleAnswer ::
  "'v render_scheme \<Rightarrow> client \<Rightarrow> browser \<Rightarrow> desc \<Rightarrow> string \<Rightarrow> client \<times> client_action list" where
  "handleAnswer view s b answer senderId =
     (case map_of (peerConnections view) senderId of
        Some p \<Rightarrow>
          if signalingState (pcs s p) \<noteq> HaveLocalOffer then (s, [])
          else
            (case rtc_setRemoteDescription (pcs s p) answer (b_setRemote b) of
               None \<Rightarrow> (s, [PcCall p (SetRemoteDescription answer)])
             | Some pc1 \<Rightarrow> (s\<lparr>pcs := (pcs s)(p := pc1)\<rparr>,
                            [PcCall p (SetRemoteDescription answer)]))
      | None \<Rightarrow> (s, []))"

definition handleIceCandidate ::
  "'v render_scheme \<Rightarrow> client \<Rightarrow> browser \<Rightarrow> candidate \<Rightarrow> string
     \<Rightarrow> client \<times> client_action list" where
  "handleIceCandidate view s b c senderId =
     (case map_of (peerConnections view) senderId of
        Some p \<Rightarrow>
          if signalingState (pcs s p) \<noteq> Closed
          then
            (case rtc_addIceCandidate (pcs s p) c (b_addIce b) of
               None \<Rightarrow> (s, [PcCall p (AddIceCandidate c)])
             | Some pc1 \<Rightarrow> (s\<lparr>pcs := (pcs s)(p := pc1)\<rparr>, [PcCall p (AddIceCandidate c)]))
          else (s, [])
      | None \<Rightarrow> (s, []))"

text \<open>\<^verbatim>\<open>stream.getTracks().forEach(track => peerConnection.addTrack(track, stream))\<close> on
  the connection \<open>p\<close>.\<close>

definition add_tracks :: "client \<Rightarrow> nat \<Rightarrow> track list \<Rightarrow> client \<times> client_action list" where
  "add_tracks s p stream =
     (s\<lparr>pcs := (pcs s)(p := foldl rtc_addTrack (pcs s p) stream)\<rparr>,
      map (\<lambda>t. PcCall p (AddTrack (t_id t))) stream)"

text \<open>\<^verbatim>\<open>peerConnection.createOffer().then(offer => { peerConnection.setLocalDescription(offer);
  if (state.socket) state.socket.emit('offer', {target, offer}) })\<close>: the result is the
  state, the actions, and whether \<^verbatim>\<open>createOffer\<close> was rejected (the \<^verbatim>\<open>catch\<close> of the
  caller then runs). \<^verbatim>\<open>setLocalDescription\<close> is not awaited: the offer is emitted
  whether or not it is accepted.\<close>

definition send_offer ::
  "'v render_scheme \<Rightarrow> client \<Rightarrow> browser \<Rightarrow> nat \<Rightarrow> string
     \<Rightarrow> client \<times> client_action list \<times> bool" where
  "send_offer view s b p userId =
     (case rtc_createOffer (pcs s p) (b_createOffer b userId) of
        None \<Rightarrow> (s, [PcCall p CreateOffer], True)
      | Some offer \<Rightarrow>
          ((case rtc_setLocalDescription (pcs s p) offer (b_setLocal b) of
              None \<Rightarrow> s
            | Some pc1 \<Rightarrow> s\<lparr>pcs := (pcs s)(p := pc1)\<rparr>),
           [PcCall p CreateOffer, PcCall p (SetLocalDescription offer)]
           @ emit_if_socket view (OfferMsg userId offer),
           False))"

text \<open>One round of the \<^verbatim>\<open>state.users.forEach\<close> of \<^verbatim>\<open>startCall\<close>. The tests read
  \<^verbatim>\<open>state\<close>, which the \<^verbatim>\<open>setState\<close> calls of earlier rounds do not change; the
  updates go to the accumulated state. \<^verbatim>\<open>startCall\<close> is taken as one step: the code
  waits for \<^verbatim>\<open>getUserMedia\<close> and, after the \<^verbatim>\<open>forEach\<close>, for each \<^verbatim>\<open>createOffer\<close>, and
  events that arrive during these waits are not interleaved here.\<close>

definition startCall_user ::
  "'v render_scheme \<Rightarrow> browser \<Rightarrow> track list \<Rightarrow> user \<Rightarrow> client \<times> client_action list
     \<Rightarrow> client \<times> client_action list" where
  "startCall_user view b stream user acc =
     (if Some (u_id user) \<noteq> map_option u_id (currentUser view)
      then
        (if map_of (peerConnections view) (u_id user) = None
         then
           (let (s, a) = acc;
                p = npcs s;
                (s1, a1) = createPeerConnection s (u_id user);
                (s2, a2) = add_tracks s1 p stream;
                s3 = s2\<lparr>peerConnections := AList.update (u_id user) p (peerConnections s2)\<rparr>;
                (s4, a4, rejected) = send_offer view s3 b p (u_id user)
            in (s4, a @ a1 @ a2 @ a4))
         else acc)
      else acc)"

definition startCall ::
  "'v render_scheme \<Rightarrow> client \<Rightarrow> browser \<Rightarrow> client \<times> client_action list" where
  "startCall view s b =
     (case b_getUserMedia b of
        None \<Rightarrow>
          (s, [Alert ''Microphone access denied. Please allow microphone access and refresh the page.''])
      | Some stream \<Rightarrow>
          fold (startCall_user view b stream) (users_c view) (s\<lparr>localStream := Some stream\<rparr>, []))"

text \<open>The \<^verbatim>\<open>user-joined\<close> listener.\<close>

definition socket_on_user_joined ::
  "'v render_scheme \<Rightarrow> client \<Rightarrow> browser \<Rightarrow> user \<Rightarrow> user list
     \<Rightarrow> client \<times> client_action list" where
  "socket_on_user_joined view s b user us =
     (let s0 = s\<lparr>users_c := us\<rparr> in
      case localStream view of
        None \<Rightarrow> (s0, [])
      | Some stream \<Rightarrow>
          if Some (u_id user) \<noteq> map_option u_id (currentUser view)
             \<and> map_of (peerConnections view) (u_id user) = None
             \<and> u_id user \<notin> connectionAttempts view
          then
            (let s1 = s0\<lparr>connectionAttempts := insert (u_id user) (connectionAttempts s0)\<rparr>;
                 p = npcs s1;
                 (s2, a2) = createPeerConnection s1 (u_id user);
                 (s3, a3) = add_tracks s2 p stream;
                 s4 = s3\<lparr>peerConnections := AList.update (u_id user) p (peerConnections s3)\<rparr>;
                 (s5, a5, rejected) = send_offer view s4 b p (u_id user);
                 s6 = (if rejected
                       then s5\<lparr>connectionAttempts := connectionAttempts s5 - {u_id user}\<rparr>
                       else s5)
             in (s6, a2 @ a3 @ a5))
          else (s0, []))"

text \<open>The \<^verbatim>\<open>user-left\<close> listener.\<close>

definition socket_on_user_left ::
  "'v render_scheme \<Rightarrow> client \<Rightarrow> string \<Rightarrow> user list \<Rightarrow> client \<times> client_action list" where
  "socket_on_user_left view s userId us =
     (let (s1, a1) = cleanupPeerConnection view s userId
      in (s1\<lparr>users_c := us\<rparr>, a1))"

text \<open>The names for which the effect at lines 335-475 calls \<^verbatim>\<open>state.socket.on\<close>, in
  the order of the source.\<close>

definition socket_listeners :: "string list" where
  "socket_listeners = [''room-created'', ''room-joined'', ''user-joined'', ''user-left'',
     ''new-message'', ''error'', ''offer'', ''answer'', ''ice-candidate'']"

text \<open>The effect that creates the socket (lines 308-332) registers three more
  listeners, for events of the socket itself; they only log.\<close>

definition connection_listeners :: "string list" where
  "connection_listeners = [''connect'', ''disconnect'', ''connect_error'']"

text \<open>The name under which the relay emits an event.\<close>

fun event_name :: "server_event \<Rightarrow> string" where
  "event_name (ErrorEv m) = ''error''"
| "event_name (UserJoined u us) = ''user-joined''"
| "event_name (RoomJoined c us ms) = ''room-joined''"
| "event_name (RoomCreated c us) = ''room-created''"
| "event_name (OfferEv d sender) = ''offer''"
| "event_name (AnswerEv d sender) = ''answer''"
| "event_name (IceCandidateEv c sender) = ''ice-candidate''"
| "event_name (NewMessage m) = ''new-message''"
| "event_name (UserMediaChanged userId enabled) = ''user-media-changed''"
| "event_name (UserLeft userId us) = ''user-left''"

text \<open>The listeners one run of that effect registers, as a function of the event. An
  event whose name has no listener reaches \<^verbatim>\<open>onAny\<close> only, which logs it.\<close>

fun listener ::
  "'v render_scheme \<Rightarrow> client \<Rightarrow> browser \<Rightarrow> server_event \<Rightarrow> client \<times> client_action list" where
  "listener view s b (RoomCreated c us) =
     (s\<lparr>roomCode := c, users_c := us, isInCall := True\<rparr>, [])"
| "listener view s b (RoomJoined c us ms) =
     (s\<lparr>roomCode := c, users_c := us, messages := ms, isInCall := True\<rparr>, [])"
| "listener view s b (UserJoined u us) = socket_on_user_joined view s b u us"
| "listener view s b (UserLeft userId us) = socket_on_user_left view s userId us"
| "listener view s b (NewMessage m) = (s\<lparr>messages := messages s @ [m]\<rparr>, [])"
| "listener view s b (ErrorEv m) = (s, [Alert m])"
| "listener view s b (OfferEv d sender) = handleOffer view s b d sender"
| "listener view s b (AnswerEv d sender) = handleAnswer view s b d sender"
| "listener view s b (IceCandidateEv c sender) = handleIceCandidate view s b c sender"
| "listener view s b ev = (s, [])"

definition socket_on ::
  "'v render_scheme \<Rightarrow> client \<Rightarrow> browser \<Rightarrow> server_event \<Rightarrow> client \<times> client_action list" where
  "socket_on view s b ev =
     (if event_name ev \<in> set socket_listeners then listener view s b ev else (s, []))"

text \<open>\<^verbatim>\<open>leaveCall\<close>: every connection of the Map is closed, then the state is reset.
  \<^verbatim>\<open>leaveCall\<close>, \<^verbatim>\<open>toggleAudio\<close>, \<^verbatim>\<open>createRoom\<close>, \<^verbatim>\<open>joinRoom\<close> and \<^verbatim>\<open>sendMessage\<close> are
  plain functions, made anew in every render and called from the buttons of the current
  one: they read the current state.\<close>

definition leaveCall :: "client \<Rightarrow> client \<times> client_action list" where
  "leaveCall s =
     (s\<lparr>pcs := fold (\<lambda>(userId, p) h. h(p := rtc_close (h p))) (peerConnections s) (pcs s),
        isInCall := False, localStream := None, peerConnections := [],
        users_c := [], messages := [], roomCode := []\<rparr>,
      map (\<lambda>(userId, p). PcCall p Close) (peerConnections s))"

text \<open>\<^verbatim>\<open>toggleAudio\<close>; \<^verbatim>\<open>getAudioTracks()[0]\<close> is the first track of the stream (the
  stream is requested with audio only).\<close>

definition toggleAudio :: "client \<Rightarrow> client \<times> client_action list" where
  "toggleAudio s =
     (case localStream s of
        None \<Rightarrow> (s, [])
      | Some [] \<Rightarrow> (s, [])
      | Some (audioTrack # rest) \<Rightarrow>
          (s\<lparr>localStream := Some (audioTrack\<lparr>t_enabled := \<not> t_enabled audioTrack\<rparr> # rest),
             isAudioEnabled := \<not> isAudioEnabled s\<rparr>,
           emit_if_socket s ToggleAudio))"

text \<open>\<^verbatim>\<open>createRoom\<close> and \<^verbatim>\<open>joinRoom\<close>; \<open>name\<close> is \<^verbatim>\<open>username.trim()\<close> and \<open>code\<close> is
  \<^verbatim>\<open>joinCode.trim().toUpperCase()\<close>.\<close>

definition createRoom :: "client \<Rightarrow> string \<Rightarrow> client \<times> client_action list" where
  "createRoom s name =
     (case socket s of
        Some sid \<Rightarrow>
          if name \<noteq> []
          then (s\<lparr>currentUser := Some \<lparr>u_id = sid, u_username = name, u_roomCode = [],
                                        u_isAudioEnabled = True\<rparr>\<rparr>,
                [SockEmit (CreateRoom name)])
          else (s, [Alert ''Please enter a username.''])
      | None \<Rightarrow>
          (s, [Alert ''Not connected to server. Please refresh the page and try again.'']
              @ (if name = [] then [Alert ''Please enter a username.''] else [])))"

definition joinRoom :: "client \<Rightarrow> string \<Rightarrow> string \<Rightarrow> client \<times> client_action list" where
  "joinRoom s name code =
     (case socket s of
        Some sid \<Rightarrow>
          if name \<noteq> [] \<and> code \<noteq> []
          then (s\<lparr>currentUser := Some \<lparr>u_id = sid, u_username = name, u_roomCode = code,
                                        u_isAudioEnabled = True\<rparr>\<rparr>,
                [SockEmit (JoinRoom code name)])
          else (s, [])
      | None \<Rightarrow> (s, []))"

definition sendMessage :: "client \<Rightarrow> string \<Rightarrow> client \<times> client_action list" where
  "sendMessage s txt = (s, if txt \<noteq> [] then emit_if_socket s (SendMessage txt) else [])"

text \<open>\<^verbatim>\<open>onconnectionstatechange\<close> of the connection \<open>p\<close>, the browser having set its
  \<^verbatim>\<open>connectionState\<close> to \<open>st\<close>; \<^verbatim>\<open>onicecandidate\<close> of the connection \<open>p\<close>. Both are
  closures made by \<^verbatim>\<open>createPeerConnection\<close>.\<close>

definition onconnectionstatechange ::
  "'v render_scheme \<Rightarrow> client \<Rightarrow> nat \<Rightarrow> connection_state \<Rightarrow> client \<times> client_action list" where
  "onconnectionstatechange view s p st =
     (let s1 = s\<lparr>pcs := (pcs s)(p := (pcs s p)\<lparr>connectionState := st\<rparr>)\<rparr>
      in if st = Connected then (s1, [])
         else if st = Failed \<or> st = Disconnected
         then cleanupPeerConnection view s1 (pc_userId (pcs s1 p))
         else (s1, []))"

definition onicecandidate ::
  "'v render_scheme \<Rightarrow> client \<Rightarrow> nat \<Rightarrow> candidate option \<Rightarrow> client \<times> client_action list" where
  "onicecandidate view s p c =
     (case c of
        None \<Rightarrow> (s, [])
      | Some candidate \<Rightarrow>
          (s, emit_if_socket view (IceCandidateMsg (pc_userId (pcs s p)) candidate)))"

text \<open>A connection is live when it has been created and is not closed.\<close>

definition live :: "client \<Rightarrow> nat \<Rightarrow> bool" where
  "live s p = (p < npcs s \<and> signalingState (pcs s p) \<noteq> Closed)"

definition one_live_per_remote :: "client \<Rightarrow> bool" where
  "one_live_per_remote s =
     (\<forall>p q. live s p \<and> live s q \<and> pc_userId (pcs s p) = pc_userId (pcs s q) \<longrightarrow> p = q)"

section \<open>The client: which state a callback reads\<close>

text \<open>
  Everything that can happen at a client: the socket is created and stored in the state;
  the relay delivers an event; the effect that starts the call fires; the browser reports
  on a connection the client created; the user presses a button.
\<close>

datatype client_event =
    SocketReady string
  | Received server_event
  | StartCallEffect
  | ConnectionStateChange nat connection_state
  | IceCandidateFound nat "candidate option"
  | UICreateRoom string
  | UIJoinRoom string string
  | UISendMessage string
  | UIToggleAudio
  | UILeaveCall

text \<open>The membership lists the relay sends are taken from a Map keyed by socket id:
  no id occurs twice in them.\<close>

fun wf_event :: "client_event \<times> browser \<Rightarrow> bool" where
  "wf_event (Received (UserJoined u us), b) = distinct (map u_id us)"
| "wf_event (Received (RoomJoined c us ms), b) = distinct (map u_id us)"
| "wf_event (Received (RoomCreated c us), b) = distinct (map u_id us)"
| "wf_event (Received (UserLeft userId us), b) = distinct (map u_id us)"
| "wf_event ev = True"

text \<open>
  First, the client as it would be if every callback read the current state: \<open>view\<close>
  is the client itself.
\<close>

fun fresh_step :: "client \<Rightarrow> client_event \<times> browser \<Rightarrow> client \<times> client_action list" where
  "fresh_step s (SocketReady sid, b) = (s\<lparr>socket := Some sid\<rparr>, [])"
| "fresh_step s (Received ev, b) = (if socket s \<noteq> None then socket_on s s b ev else (s, []))"
| "fresh_step s (StartCallEffect, b) =
     (if isInCall s \<and> length (users_c s) > 1 \<and> localStream s = None then startCall s s b
      else (s, []))"
| "fresh_step s (ConnectionStateChange p st, b) =
     (if p < npcs s then onconnectionstatechange s s p st else (s, []))"
| "fresh_step s (IceCandidateFound p c, b) =
     (if p < npcs s then onicecandidate s s p c else (s, []))"
| "fresh_step s (UICreateRoom name, b) = createRoom s name"
| "fresh_step s (UIJoinRoom name code, b) = joinRoom s name code"
| "fresh_step s (UISendMessage txt, b) = sendMessage s txt"
| "fresh_step s (UIToggleAudio, b) = toggleAudio s"
| "fresh_step s (UILeaveCall, b) = leaveCall s"

fun fresh_run :: "client \<Rightarrow> (client_event \<times> browser) list \<Rightarrow> client" where
  "fresh_run s [] = s"
| "fresh_run s (ev # evs) = fresh_run (fst (fresh_step s ev)) evs"

text \<open>
  Then the client as App.tsx makes it. The socket listeners are registered by the effect
  \<^verbatim>\<open>useEffect(() => { if (!state.socket) return; state.socket.on(...) ... },
  [state.socket, handleOffer, handleAnswer, handleIceCandidate])\<close>. \<^verbatim>\<open>handleOffer\<close> is
  \<^verbatim>\<open>useCallback(..., [createPeerConnection, state.socket, state.peerConnections,
  cleanupPeerConnection])\<close>, and the other two depend on \<^verbatim>\<open>state.peerConnections\<close>, so the
  effect runs again after every render in which \<^verbatim>\<open>state.socket\<close> or the Map has
  changed. It returns no cleanup function: the listeners of its earlier runs stay on the
  socket, each reading the state of the render that registered it, and the socket calls
  all of them, oldest first, for every event. \<open>registered\<close> lists these renders.

  \<^verbatim>\<open>createPeerConnection\<close> is \<^verbatim>\<open>useCallback(..., [state.socket])\<close>: the callbacks it
  installs on a connection read the state of the render in which the socket was stored
  (\<open>pc_callbacks\<close>). The effect that starts the call and the buttons use the callbacks of
  the current render.

  A step is one event with the re-render that follows it. The Map is replaced by a copy
  whenever a callback updates it, and React compares the Maps by identity; the model
  compares contents, so it registers listeners no more often than React does (a copy
  with the contents of the Map it replaces, such as the empty Map \<^verbatim>\<open>leaveCall\<close> stores
  when no connection is open, registers one more set in React and none here).
\<close>

record runtime =
  page :: client
  registered :: "render list"
  pc_callbacks :: "render option"

definition init_runtime :: runtime where
  "init_runtime = \<lparr>page = init_client, registered = [], pc_callbacks = None\<rparr>"

text \<open>Every registered listener for the event runs, oldest first.\<close>

definition socket_receive ::
  "render list \<Rightarrow> client \<Rightarrow> browser \<Rightarrow> server_event \<Rightarrow> client \<times> client_action list" where
  "socket_receive views s b ev =
     fold (\<lambda>view (s1, a1). let (s2, a2) = socket_on view s1 b ev in (s2, a1 @ a2)) views (s, [])"

definition rerender :: "runtime \<Rightarrow> client \<Rightarrow> runtime" where
  "rerender rt s =
     \<lparr>page = s,
      registered =
        (if socket s \<noteq> None
            \<and> (socket s \<noteq> socket (page rt) \<or> peerConnections s \<noteq> peerConnections (page rt))
         then registered rt @ [render.truncate s] else registered rt),
      pc_callbacks =
        (if socket s \<noteq> socket (page rt) then Some (render.truncate s) else pc_callbacks rt)\<rparr>"

fun client_event_step ::
  "runtime \<Rightarrow> client_event \<times> browser \<Rightarrow> client \<times> client_action list" where
  "client_event_step rt (SocketReady sid, b) = ((page rt)\<lparr>socket := Some sid\<rparr>, [])"
| "client_event_step rt (Received ev, b) = socket_receive (registered rt) (page rt) b ev"
| "client_event_step rt (StartCallEffect, b) =
     (if isInCall (page rt) \<and> length (users_c (page rt)) > 1 \<and> localStream (page rt) = None
      then startCall (page rt) (page rt) b else (page rt, []))"
| "client_event_step rt (ConnectionStateChange p st, b) =
     (case pc_callbacks rt of
        Some view \<Rightarrow>
          if p < npcs (page rt) then onconnectionstatechange view (page rt) p st
          else (page rt, [])
      | None \<Rightarrow> (page rt, []))"
| "client_event_step rt (IceCandidateFound p c, b) =
     (case pc_callbacks rt of
        Some view \<Rightarrow>
          if p < npcs (page rt) then onicecandidate view (page rt) p c else (page rt, [])
      | None \<Rightarrow> (page rt, []))"
| "client_event_step rt (UICreateRoom name, b) = createRoom (page rt) name"
| "client_event_step rt (UIJoinRoom name code, b) = joinRoom (page rt) name code"
| "client_event_step rt (UISendMessage txt, b) = sendMessage (page rt) txt"
| "client_event_step rt (UIToggleAudio, b) = toggleAudio (page rt)"
| "client_event_step rt (UILeaveCall, b) = leaveCall (page rt)"

definition client_step ::
  "runtime \<Rightarrow> client_event \<times> browser \<Rightarrow> runtime \<times> client_action list" where
  "client_step rt ev =
     (let (s, a) = client_event_step rt ev in (rerender rt s, a))"

fun client_run :: "runtime \<Rightarrow> (client_event \<times> browser) list \<Rightarrow> runtime" where
  "client_run rt [] = rt"
| "client_run rt (ev # evs) = client_run (fst (client_step rt ev)) evs"

text \<open>The invariant that holds when every callback reads the current state: every live
  connection is the one the Map holds for its user id. With it, the membership list in
  the state carries no id twice.\<close>

definition mapped :: "client \<Rightarrow> bool" where
  "mapped s = (\<forall>p. live s p \<longrightarrow> map_of (peerConnections s) (pc_userId (pcs s p)) = Some p)"

definition good :: "client \<Rightarrow> bool" where
  "good s = (mapped s \<and> distinct (map u_id (users_c s)))"

text \<open>The relay's rooms are well formed: no socket id occurs twice in a room's Map, and
  each entry refers to an allocated user object carrying that id.\<close>

definition room_wf :: "(nat \<Rightarrow> user) \<Rightarrow> nat \<Rightarrow> room \<Rightarrow> bool" where
  "room_wf h n r = (distinct (map fst (r_users r))
      \<and> (\<forall>(k, p)\<in>set (r_users r). u_id (h p) = k \<and> p < n))"

definition rooms_wf :: "server \<Rightarrow> bool" where
  "rooms_wf s = (\<forall>c r. rooms s c = Some r \<longrightarrow> room_wf (objs s) (nxt s) r)"

section \<open>Concrete runs\<close>

definition env0 :: env where
  "env0 = \<lparr>generateRoomCode = ''AB12CD'', now = 1, uuidv4 = ''m1''\<rparr>"

text \<open>Alice (socket \<open>x\<close>) has created the room AB12CD; then Bob (socket \<open>y\<close>) has joined.\<close>

definition relay_alice :: server where
  "relay_alice = server_run init_server [(''x'', CreateRoom ''Alice'', env0)]"

definition relay_alice_bob :: server where
  "relay_alice_bob =
     server_run init_server [(''x'', CreateRoom ''Alice'', env0),
                             (''y'', JoinRoom ''AB12CD'' ''Bob'', env0)]"

text \<open>Alice, Bob and Carol (socket \<open>z\<close>) are connected and in the room AB12CD; then Bob
  disconnects.\<close>

definition trio_joins :: "(string \<times> client_msg \<times> env) list" where
  "trio_joins =
     [(''x'', CreateRoom ''Alice'', env0), (''y'', JoinRoom ''AB12CD'' ''Bob'', env0),
      (''z'', JoinRoom ''AB12CD'' ''Carol'', env0)]"

definition relay_trio :: server where
  "relay_trio = server_run init_server trio_joins"

definition sio_trio :: adapter where
  "sio_trio = sio_run init_server (sio_connected [''x'', ''y'', ''z'']) trio_joins"

definition relay_bob_gone :: server where
  "relay_bob_gone = server_run init_server (trio_joins @ [(''y'', Disconnect, env0)])"

definition sio_bob_gone :: adapter where
  "sio_bob_gone =
     sio_run init_server (sio_connected [''x'', ''y'', ''z''])
       (trio_joins @ [(''y'', Disconnect, env0)])"

definition an_offer :: desc where
  "an_offer = \<lparr>d_type = SdpOffer, d_sdp = ''v=0 offer''\<rparr>"

definition an_answer :: desc where
  "an_answer = \<lparr>d_type = SdpAnswer, d_sdp = ''v=0 answer''\<rparr>"

text \<open>A browser that grants the microphone and accepts every call the state permits.\<close>

definition browser0 :: browser where
  "browser0 = \<lparr>b_setRemote = True, b_setLocal = True, b_createAnswer = Some an_answer,
     b_createOffer = (\<lambda>userId. Some an_offer), b_addIce = True,
     b_getUserMedia = Some [\<lparr>t_id = ''mic'', t_enabled = True\<rparr>]\<rparr>"

definition alice :: user where
  "alice = \<lparr>u_id = ''x'', u_username = ''Alice'', u_roomCode = ''AB12CD'',
             u_isAudioEnabled = True\<rparr>"

definition bob :: user where
  "bob = \<lparr>u_id = ''y'', u_username = ''Bob'', u_roomCode = ''AB12CD'',
           u_isAudioEnabled = True\<rparr>"

definition carol :: user where
  "carol = \<lparr>u_id = ''z'', u_username = ''Carol'', u_roomCode = ''AB12CD'',
             u_isAudioEnabled = True\<rparr>"

text \<open>Alice's client: she creates the room, Bob joins, her call starts (one connection,
  to Bob, with her offer out and no answer yet). Bob's own call has started as well, so
  his offer to Alice arrives next.\<close>

definition alice_calls :: "(client_event \<times> browser) list" where
  "alice_calls = [(SocketReady ''x'', browser0), (UICreateRoom ''Alice'', browser0),
     (Received (RoomCreated ''AB12CD'' [alice]), browser0),
     (Received (UserJoined bob [alice, bob]), browser0),
     (StartCallEffect, browser0)]"

definition alice_offering_rt :: runtime where
  "alice_offering_rt = client_run init_runtime alice_calls"

definition alice_offering :: client where
  "alice_offering = page alice_offering_rt"

definition alice_glare :: client where
  "alice_glare = page (client_run init_runtime
     (alice_calls @ [(Received (OfferEv an_offer ''y''), browser0)]))"

text \<open>Alice's client after Bob's answer to her offer, handled by a listener that reads the
  current state.\<close>

definition alice_talking :: client where
  "alice_talking = fst (handleAnswer alice_offering alice_offering browser0 an_answer ''y'')"

text \<open>Alice's client with every callback reading the current state: she has been in a
  call with Carol, who has left; her microphone is open, her only connection is closed
  and gone from the Map. Then Bob joins and a connection to him is opened; then Bob
  leaves.\<close>

definition alice_waiting :: client where
  "alice_waiting = fresh_run init_client
     [(SocketReady ''x'', browser0), (UICreateRoom ''Alice'', browser0),
      (Received (RoomCreated ''AB12CD'' [alice]), browser0),
      (Received (UserJoined carol [alice, carol]), browser0),
      (StartCallEffect, browser0),
      (Received (UserLeft ''z'' [alice]), browser0)]"

definition alice_connected :: client where
  "alice_connected =
     fst (socket_on_user_joined alice_waiting alice_waiting browser0 bob [alice, bob])"

definition alice_alone_again :: client where
  "alice_alone_again =
     fst (socket_on_user_left alice_connected alice_connected ''y'' [alice])"

section \<open>The relay: lemmas\<close>
















text \<open>What \<^verbatim>\<open>create-room\<close> does when the generated code is not the code of a live
  room: the room is new, its only member is the creator, and no other room changes.\<close>

lemma create_room_fresh:
  assumes "rooms s (generateRoomCode e) = None"
  shows "\<exists>r. rooms (fst (on_create_room s sid username e)) (generateRoomCode e) = Some r
            \<and> map fst (r_users r) = [sid]"
    and "c \<noteq> generateRoomCode e \<Longrightarrow> rooms (fst (on_create_room s sid username e)) c = rooms s c"
  by (simp_all add: on_create_room_def store_user_def Let_def)



lemma relay_alice_bob_room:
  "rooms relay_alice_bob ''AB12CD'' =
     Some \<lparr>r_code = ''AB12CD'', r_created = 1, r_users = [(''x'', 0), (''y'', 1)],
           r_messages = []\<rparr>"
  by (simp add: relay_alice_bob_def on_create_room_def on_join_room_def store_user_def
      init_server_def env0_def Let_def)

text \<open>What the relay sends when Bob joins Alice's room, and when Bob's client sends
  Alice an offer: the events Alice's client receives in the runs below.\<close>

lemma relay_announces_bob:
  "server_step relay_alice (''y'', JoinRoom ''AB12CD'' ''Bob'', env0)
     = (relay_alice_bob,
        [SocketJoin ''AB12CD'',
         Emit (To ''AB12CD'') (UserJoined bob [alice, bob]),
         Emit ToSender (RoomJoined ''AB12CD'' [alice, bob] [])])"
proof -
  have s: "fst (server_step relay_alice (''y'', JoinRoom ''AB12CD'' ''Bob'', env0)) = relay_alice_bob"
    by (simp add: relay_alice_def relay_alice_bob_def)
  have a: "snd (server_step relay_alice (''y'', JoinRoom ''AB12CD'' ''Bob'', env0))
     = [SocketJoin ''AB12CD'',
         Emit (To ''AB12CD'') (UserJoined bob [alice, bob]),
         Emit ToSender (RoomJoined ''AB12CD'' [alice, bob] [])]"
    by (simp add: relay_alice_def on_create_room_def on_join_room_def store_user_def
        init_server_def env0_def snapshot_def Let_def bob_def alice_def)
  show ?thesis using s a by (simp add: prod_eq_iff)
qed

lemma relay_forwards_bobs_offer:
  "snd (server_step relay_alice_bob (''y'', OfferMsg ''x'' an_offer, env0))
     = [Emit (To ''x'') (OfferEv an_offer ''y'')]"
  by (simp add: on_offer_def)

text \<open>The rooms of socket.io in the two runs with three sockets.\<close>

lemmas relay_defs = on_create_room_def on_join_room_def on_disconnect_def store_user_def
  init_server_def env0_def Let_def on_offer_def on_answer_def on_ice_candidate_def

lemmas sio_defs = sio_connected_def sio_connect_def sio_leave_all_def

lemma sio_trio_rooms:
  "sio_trio ''x'' = {''x''} \<and> sio_trio ''y'' = {''y''} \<and> sio_trio ''z'' = {''z''}
   \<and> sio_trio ''AB12CD'' = {''x'', ''y'', ''z''}"
  by (auto simp: sio_trio_def trio_joins_def relay_defs sio_defs)

lemma sio_bob_gone_rooms:
  "sio_bob_gone ''x'' = {''x''} \<and> sio_bob_gone ''y'' = {} \<and> sio_bob_gone ''z'' = {''z''}
   \<and> sio_bob_gone ''AB12CD'' = {''x'', ''z''}"
  by (auto simp: sio_bob_gone_def trio_joins_def relay_defs sio_defs)

section \<open>The relay: claims\<close>

text \<open>
  Claim C2, at its failing input. The claim: the code given to a new room is unique among
  the live rooms, and creating a room never overwrites or destroys the membership of a
  live room. \<^verbatim>\<open>generateRoomCode\<close> is commented "Generate unique room codes", but the
  handler stores the new room under whatever string it returns, without looking at
  \<^verbatim>\<open>rooms\<close>. Here Alice and Bob are in room AB12CD and a third socket \<open>z\<close> creates a
  room for which the generator returns AB12CD again: the room of Alice and Bob is replaced
  by a room whose only member is \<open>z\<close>.
\<close>

theorem create_room_overwrites_live_room:
  "rooms relay_alice_bob ''AB12CD'' =
     Some \<lparr>r_code = ''AB12CD'', r_created = 1, r_users = [(''x'', 0), (''y'', 1)],
           r_messages = []\<rparr>
   \<and> rooms (fst (on_create_room relay_alice_bob ''z'' ''Zed'' env0)) ''AB12CD'' =
     Some \<lparr>r_code = ''AB12CD'', r_created = 1, r_users = [(''z'', 2)], r_messages = []\<rparr>"
  by (simp add: relay_alice_bob_def on_create_room_def on_join_room_def store_user_def
      init_server_def env0_def Let_def)



text \<open>
  Claim C4. A \<^verbatim>\<open>join-room\<close> whose code is not the code of a live room is answered to the
  sender with \<^verbatim>\<open>error {message: "Room not found"}\<close>, and the state of the relay after
  the handler is the state before it: no room, no user record, no membership changes,
  and the socket joins nothing.
\<close>

theorem join_unknown_room_is_error_only:
  "rooms s c = None \<Longrightarrow>
     server_step s (sid, JoinRoom c username, e)
       = (s, [Emit ToSender (ErrorEv ''Room not found'')])"
  by (simp add: on_join_room_def)

theorem join_unknown_room_is_error_only_witness:
  "rooms relay_alice ''ZZ99ZZ'' = None
   \<and> server_step relay_alice (''c'', JoinRoom ''ZZ99ZZ'' ''Carol'', env0)
       = (relay_alice, [Emit ToSender (ErrorEv ''Room not found'')])"
proof -
  have h: "rooms relay_alice ''ZZ99ZZ'' = None"
    by (simp add: relay_alice_def on_create_room_def store_user_def init_server_def env0_def
        Let_def)
  show ?thesis
    using h join_unknown_room_is_error_only [OF h, of "''c''" "''Carol''" env0] by simp
qed

text \<open>
  Claim C9, as stated, fails. The claim: every negotiation message is forwarded to
  exactly one recipient, the connection named by its \<^verbatim>\<open>target\<close>, and no other
  connection receives it. The relay passes \<^verbatim>\<open>target\<close> to \<^verbatim>\<open>socket.to\<close> unchecked, so
  the recipients are whatever sockets are in the room of that name. After Bob has
  disconnected, a candidate Alice sends with target \<open>y\<close> reaches nobody; and an offer
  Alice sends with the room code AB12CD as target reaches both Bob and Carol.
\<close>

theorem forwarded_message_reaches_none_or_several:
  "delivered sio_bob_gone ''x''
     (snd (server_step relay_bob_gone (''x'', IceCandidateMsg ''y'' ''candidate 1'', env0))) = {}
   \<and> delivered sio_trio ''x''
     (snd (server_step relay_trio (''x'', OfferMsg ''AB12CD'' an_offer, env0)))
     = {(''y'', OfferEv an_offer ''x''), (''z'', OfferEv an_offer ''x'')}"
  using sio_trio_rooms sio_bob_gone_rooms
  by (auto simp: on_offer_def on_ice_candidate_def)

text \<open>
  Claim C9, amended. For an \<^verbatim>\<open>offer\<close>, an \<^verbatim>\<open>answer\<close> and an \<^verbatim>\<open>ice-candidate\<close> message
  the relay makes exactly one emit, \<^verbatim>\<open>socket.to(target)\<close>, carrying the payload as
  received and the id of the sending socket as \<^verbatim>\<open>sender\<close>; its state is unchanged
  (nothing is validated, stored or queued for later). The event is delivered to the
  sockets that are in the room named \<^verbatim>\<open>target\<close>, the sender excepted, and to no other
  socket. When that room holds the socket \<^verbatim>\<open>target\<close> alone, as it does for the id of a
  connected socket, and the target is not the sender, the recipient is exactly that one
  socket.
\<close>

theorem negotiation_forwarded_to_room_of_target:
  "server_step s (sid, OfferMsg target d, e) = (s, [Emit (To target) (OfferEv d sid)])
   \<and> server_step s (sid, AnswerMsg target d, e) = (s, [Emit (To target) (AnswerEv d sid)])
   \<and> server_step s (sid, IceCandidateMsg target c, e)
       = (s, [Emit (To target) (IceCandidateEv c sid)])
   \<and> delivered a sid (snd (server_step s (sid, OfferMsg target d, e)))
       = (\<lambda>r. (r, OfferEv d sid)) ` (a target - {sid})
   \<and> delivered a sid (snd (server_step s (sid, AnswerMsg target d, e)))
       = (\<lambda>r. (r, AnswerEv d sid)) ` (a target - {sid})
   \<and> delivered a sid (snd (server_step s (sid, IceCandidateMsg target c, e)))
       = (\<lambda>r. (r, IceCandidateEv c sid)) ` (a target - {sid})
   \<and> (a target = {target} \<and> target \<noteq> sid \<longrightarrow>
        delivered a sid (snd (server_step s (sid, OfferMsg target d, e)))
          = {(target, OfferEv d sid)}
        \<and> delivered a sid (snd (server_step s (sid, AnswerMsg target d, e)))
          = {(target, AnswerEv d sid)}
        \<and> delivered a sid (snd (server_step s (sid, IceCandidateMsg target c, e)))
          = {(target, IceCandidateEv c sid)})"
  by (auto simp: on_offer_def on_answer_def on_ice_candidate_def)

theorem negotiation_forwarded_to_room_of_target_witness:
  "sio_trio ''y'' = {''y''} \<and> ''y'' \<noteq> ''x''
   \<and> server_step relay_trio (''x'', OfferMsg ''y'' an_offer, env0)
       = (relay_trio, [Emit (To ''y'') (OfferEv an_offer ''x'')])
   \<and> delivered sio_trio ''x'' (snd (server_step relay_trio (''x'', OfferMsg ''y'' an_offer, env0)))
       = {(''y'', OfferEv an_offer ''x'')}
   \<and> delivered sio_trio ''y'' (snd (server_step relay_trio (''y'', AnswerMsg ''x'' an_answer, env0)))
       = {(''x'', AnswerEv an_answer ''y'')}
   \<and> delivered sio_trio ''x''
        (snd (server_step relay_trio (''x'', IceCandidateMsg ''y'' ''candidate 1'', env0)))
       = {(''y'', IceCandidateEv ''candidate 1'' ''x'')}"
proof -
  have y: "sio_trio ''y'' = {''y''}" and x: "sio_trio ''x'' = {''x''}"
    using sio_trio_rooms by simp_all
  note t1 = negotiation_forwarded_to_room_of_target
    [of relay_trio "''x''" "''y''" an_offer env0 "''candidate 1''" sio_trio]
  note t2 = negotiation_forwarded_to_room_of_target
    [of relay_trio "''y''" "''x''" an_answer env0 "''candidate 1''" sio_trio]
  show ?thesis using t1 t2 x y by simp
qed

section \<open>The relay: membership lists\<close>

text \<open>Every membership list the relay emits is taken from a well-formed room, so it
  carries no socket id twice. This is what a client may assume of the lists it receives.\<close>

lemma in_update: "(k', q) \<in> set (AList.update k v al) \<Longrightarrow> (k', q) = (k, v) \<or> (k', q) \<in> set al"
  by (induction al) (auto split: if_splits)

lemma in_delete: "(k', q) \<in> set (AList.delete k al) \<Longrightarrow> (k', q) \<in> set al"
  by (induction al) (auto split: if_splits)

lemma room_wf_alloc: "room_wf h n r \<Longrightarrow> room_wf (h(n := u)) (Suc n) r"
  unfolding room_wf_def by fastforce

lemma room_wf_update:
  assumes "room_wf h n r" "u_id u = k"
  shows "room_wf (h(n := u)) (Suc n) (r\<lparr>r_users := AList.update k n (r_users r)\<rparr>)"
proof -
  have "\<forall>(k', p)\<in>set (AList.update k n (r_users r)). u_id ((h(n := u)) p) = k' \<and> p < Suc n"
  proof (clarify)
    fix k' p assume "(k', p) \<in> set (AList.update k n (r_users r))"
    then have "(k', p) = (k, n) \<or> (k', p) \<in> set (r_users r)" by (rule in_update)
    then show "u_id ((h(n := u)) p) = k' \<and> p < Suc n"
      using assms unfolding room_wf_def by fastforce
  qed
  then show ?thesis using assms(1) by (simp add: room_wf_def distinct_update)
qed

lemma room_wf_delete:
  assumes "room_wf h n r"
  shows "room_wf h n (r\<lparr>r_users := AList.delete k (r_users r)\<rparr>)"
  using assms unfolding room_wf_def
  by (auto simp: distinct_delete dest!: in_delete)

lemma room_wf_toggle:
  assumes "room_wf h n r" "u_id u = u_id (h p)"
  shows "room_wf (h(p := u)) n r"
  using assms unfolding room_wf_def by fastforce

lemma room_wf_messages: "room_wf h n (r\<lparr>r_messages := ms\<rparr>) = room_wf h n r"
  by (simp add: room_wf_def)

lemma room_wf_new: "room_wf h n \<lparr>r_code = c, r_created = t, r_users = [], r_messages = []\<rparr>"
  by (simp add: room_wf_def)

lemma rooms_wf_init: "rooms_wf init_server"
  by (simp add: rooms_wf_def init_server_def)

lemma rooms_wf_join: "rooms_wf s \<Longrightarrow> rooms_wf (fst (on_join_room s sid c n))"
proof (cases "rooms s c")
  case None
  assume "rooms_wf s"
  then show ?thesis using None by (simp add: on_join_room_def)
next
  case (Some room)
  assume a: "rooms_wf s"
  let ?u = "\<lparr>u_id = sid, u_username = n, u_roomCode = c, u_isAudioEnabled = True\<rparr>"
  have "room_wf (objs s) (nxt s) room" using a Some by (simp add: rooms_wf_def)
  then have "room_wf ((objs s)(nxt s := ?u)) (Suc (nxt s))
      (room\<lparr>r_users := AList.update sid (nxt s) (r_users room)\<rparr>)"
    by (rule room_wf_update) simp
  moreover have "\<And>c' r. rooms s c' = Some r \<Longrightarrow> room_wf ((objs s)(nxt s := ?u)) (Suc (nxt s)) r"
    using a by (simp add: rooms_wf_def room_wf_alloc)
  ultimately show ?thesis using Some
    by (simp add: rooms_wf_def on_join_room_def store_user_def Let_def)
qed

lemma rooms_wf_create: "rooms_wf s \<Longrightarrow> rooms_wf (fst (on_create_room s sid n e))"
proof -
  assume a: "rooms_wf s"
  let ?u = "\<lparr>u_id = sid, u_username = n, u_roomCode = generateRoomCode e, u_isAudioEnabled = True\<rparr>"
  let ?r = "\<lparr>r_code = generateRoomCode e, r_created = now e, r_users = [], r_messages = []\<rparr>"
  have "room_wf ((objs s)(nxt s := ?u)) (Suc (nxt s)) (?r\<lparr>r_users := AList.update sid (nxt s) (r_users ?r)\<rparr>)"
    by (rule room_wf_update[OF room_wf_new]) simp
  moreover have "\<And>c' r. rooms s c' = Some r \<Longrightarrow> room_wf ((objs s)(nxt s := ?u)) (Suc (nxt s)) r"
    using a by (simp add: rooms_wf_def room_wf_alloc)
  ultimately show ?thesis
    by (simp add: rooms_wf_def on_create_room_def store_user_def Let_def)
qed

lemma rooms_wf_send: "rooms_wf s \<Longrightarrow> rooms_wf (fst (on_send_message s sid t e))"
  unfolding rooms_wf_def on_send_message_def Let_def
  by (auto split: option.splits simp: room_wf_messages)

lemma rooms_wf_toggle: "rooms_wf s \<Longrightarrow> rooms_wf (fst (on_toggle_audio s sid))"
  unfolding rooms_wf_def on_toggle_audio_def Let_def
  by (auto split: option.splits intro!: room_wf_toggle)

lemma rooms_wf_disconnect: "rooms_wf s \<Longrightarrow> rooms_wf (fst (on_disconnect s sid))"
  unfolding rooms_wf_def on_disconnect_def Let_def
  by (auto split: option.splits intro!: room_wf_delete)

lemma rooms_wf_step: "rooms_wf s \<Longrightarrow> rooms_wf (fst (server_step s ev))"
  by (cases "(s, ev)" rule: server_step.cases)
     (simp_all add: rooms_wf_join rooms_wf_create rooms_wf_send rooms_wf_toggle
        rooms_wf_disconnect on_offer_def on_answer_def on_ice_candidate_def)

lemma rooms_wf_run: "rooms_wf s \<Longrightarrow> rooms_wf (server_run s evs)"
  by (induction evs arbitrary: s) (simp_all add: rooms_wf_step)

lemma snapshot_distinct:
  assumes "room_wf h n r"
  shows "distinct (map u_id (snapshot h r))"
proof -
  have "map u_id (snapshot h r) = map fst (r_users r)"
    using assms unfolding snapshot_def room_wf_def by (auto simp: split_def)
  then show ?thesis using assms by (simp add: room_wf_def)
qed

lemma emitted_join:
  assumes "rooms_wf s" "Emit a ev \<in> set (snd (on_join_room s sid c n))"
  shows "wf_event (Received ev, b)"
proof (cases "rooms s c")
  case None
  then show ?thesis using assms by (auto simp: on_join_room_def)
next
  case (Some room)
  let ?u = "\<lparr>u_id = sid, u_username = n, u_roomCode = c, u_isAudioEnabled = True\<rparr>"
  let ?r = "room\<lparr>r_users := AList.update sid (nxt s) (r_users room)\<rparr>"
  have "room_wf (objs s) (nxt s) room" using assms(1) Some by (simp add: rooms_wf_def)
  then have "room_wf ((objs s)(nxt s := ?u)) (Suc (nxt s)) ?r"
    by (rule room_wf_update) simp
  then have "distinct (map u_id (snapshot ((objs s)(nxt s := ?u)) ?r))"
    by (rule snapshot_distinct)
  then show ?thesis using assms(2) Some
    by (auto simp: on_join_room_def store_user_def Let_def)
qed

lemma emitted_create:
  assumes "Emit a ev \<in> set (snd (on_create_room s sid n e))"
  shows "wf_event (Received ev, b)"
  using assms by (auto simp: on_create_room_def store_user_def Let_def snapshot_def)

lemma emitted_disconnect:
  assumes "rooms_wf s" "Emit a ev \<in> set (snd (on_disconnect s sid))"
  shows "wf_event (Received ev, b)"
proof -
  have "\<And>r. rooms s (u_roomCode (objs s (the (users s sid)))) = Some r \<Longrightarrow>
      distinct (map u_id (snapshot (objs s) (r\<lparr>r_users := AList.delete sid (r_users r)\<rparr>)))"
    using assms(1) by (intro snapshot_distinct room_wf_delete) (auto simp: rooms_wf_def)
  then show ?thesis using assms(2)
    by (auto simp: on_disconnect_def Let_def split: option.splits)
qed

lemma emitted_step:
  assumes "rooms_wf s" "Emit a ev \<in> set (snd (server_step s m))"
  shows "wf_event (Received ev, b)"
  using assms
  by (cases "(s, m)" rule: server_step.cases)
     (auto simp: on_offer_def on_answer_def on_ice_candidate_def on_send_message_def
        on_toggle_audio_def Let_def split: option.splits
        dest: emitted_join emitted_create emitted_disconnect)

section \<open>The client, every callback reading the current state\<close>

text \<open>What the tests in \<^verbatim>\<open>startCall\<close>, in the \<^verbatim>\<open>user-joined\<close> listener and in
  \<^verbatim>\<open>handleOffer\<close> achieve when the state they read is the current one: every live
  connection is the one in the Map, so there is at most one per remote id; a connection
  is created for an id only if the Map holds none that is not closed; a repeated
  \<^verbatim>\<open>user-joined\<close> or offer creates none.\<close>

lemma mapped_one_live: "mapped s \<Longrightarrow> one_live_per_remote s"
  unfolding mapped_def one_live_per_remote_def
  by (metis option.inject)

lemma mapped_init: "mapped init_client"
  by (simp add: mapped_def live_def init_client_def)

lemma set_remote_next_open: "set_remote_next t st = Some st' \<Longrightarrow> st \<noteq> Closed \<and> st' \<noteq> Closed"
  by (cases t) (auto split: if_splits)

lemma set_local_next_open: "set_local_next t st = Some st' \<Longrightarrow> st \<noteq> Closed \<and> st' \<noteq> Closed"
  by (cases t) (auto split: if_splits)

lemma setRemote_keeps:
  "rtc_setRemoteDescription pc d ok = Some pc' \<Longrightarrow>
     pc_userId pc' = pc_userId pc \<and> signalingState pc \<noteq> Closed \<and> signalingState pc' \<noteq> Closed"
  by (auto simp: rtc_setRemoteDescription_def split: option.splits if_splits
      dest: set_remote_next_open)

lemma setLocal_keeps:
  "rtc_setLocalDescription pc d ok = Some pc' \<Longrightarrow>
     pc_userId pc' = pc_userId pc \<and> signalingState pc \<noteq> Closed \<and> signalingState pc' \<noteq> Closed"
  by (auto simp: rtc_setLocalDescription_def split: option.splits if_splits
      dest: set_local_next_open)

lemma addIce_keeps:
  "rtc_addIceCandidate pc c ok = Some pc' \<Longrightarrow>
     pc_userId pc' = pc_userId pc \<and> signalingState pc' = signalingState pc"
  by (auto simp: rtc_addIceCandidate_def split: if_splits)

lemma add_tracks_keeps:
  "pc_userId (foldl rtc_addTrack pc ts) = pc_userId pc
   \<and> signalingState (foldl rtc_addTrack pc ts) = signalingState pc"
  by (induction ts arbitrary: pc) (simp_all add: rtc_addTrack_def)

lemma mapped_pc_update:
  assumes "mapped s" "pc_userId pc' = pc_userId (pcs s p)"
    "signalingState pc' \<noteq> Closed \<longrightarrow> signalingState (pcs s p) \<noteq> Closed"
  shows "mapped (s\<lparr>pcs := (pcs s)(p := pc')\<rparr>)"
  using assms unfolding mapped_def live_def by auto

lemma mapped_cleanup:
  "mapped s \<Longrightarrow> peerConnections view = peerConnections s \<Longrightarrow>
     mapped (fst (cleanupPeerConnection view s u))"
  unfolding mapped_def live_def cleanupPeerConnection_def
  by (auto simp: rtc_close_def delete_conv split: option.splits)

lemma mapped_fresh:
  assumes "mapped s" "map_of (peerConnections s) u = None \<or> (\<exists>p. map_of (peerConnections s) u = Some p \<and> \<not> live s p)"
  shows "\<forall>p. live s p \<longrightarrow> pc_userId (pcs s p) \<noteq> u"
  using assms unfolding mapped_def by auto

lemma mapped_create:
  assumes "mapped s" "\<forall>p. live s p \<longrightarrow> pc_userId (pcs s p) \<noteq> u" "pc_userId pc' = u"
  shows "mapped (s\<lparr>pcs := (pcs s)(npcs s := pc'), npcs := Suc (npcs s),
                   peerConnections := AList.update u (npcs s) (peerConnections s)\<rparr>)"
  using assms unfolding mapped_def live_def
  by (auto simp: update_conv less_Suc_eq)

lemma mapped_handleOffer_try:
  "mapped s \<Longrightarrow> mapped (fst (handleOffer_try view s b p d u))"
  unfolding handleOffer_try_def
  by (auto split: option.splits dest!: setRemote_keeps setLocal_keeps intro!: mapped_pc_update)

lemma mapped_create_set:
  assumes "mapped s" "map_of (peerConnections s) u = None"
  shows "mapped ((fst (createPeerConnection s u))
           \<lparr>peerConnections := AList.update u (npcs s) (peerConnections (fst (createPeerConnection s u)))\<rparr>)"
proof -
  have fresh: "\<forall>p. live s p \<longrightarrow> pc_userId (pcs s p) \<noteq> u"
    using assms mapped_fresh by blast
  have "pc_userId (rtc_new u) = u" by (simp add: rtc_new_def)
  from mapped_create[OF assms(1) fresh this] show ?thesis
    by (simp add: createPeerConnection_def)
qed

lemma cleanup_unmaps:
  "peerConnections view = peerConnections s \<Longrightarrow>
     map_of (peerConnections (fst (cleanupPeerConnection view s u))) u = None"
  by (auto simp: cleanupPeerConnection_def delete_conv split: option.splits)

lemma cleanup_npcs: "npcs (fst (cleanupPeerConnection view s u)) = npcs s"
  by (auto simp: cleanupPeerConnection_def split: option.splits)

lemma mapped_handleOffer: "mapped s \<Longrightarrow> mapped (fst (handleOffer s s b d u))"
  unfolding handleOffer_def
  by (auto simp: Let_def split_def mapped_handleOffer_try mapped_create_set mapped_cleanup cleanup_unmaps
      split: option.splits)

lemma mapped_handleAnswer: "mapped s \<Longrightarrow> mapped (fst (handleAnswer view s b d u))"
  unfolding handleAnswer_def
  by (auto split: option.splits dest!: setRemote_keeps intro!: mapped_pc_update)

lemma mapped_handleIceCandidate: "mapped s \<Longrightarrow> mapped (fst (handleIceCandidate view s b c u))"
  unfolding handleIceCandidate_def
  by (auto split: option.splits dest!: addIce_keeps intro!: mapped_pc_update)

lemma mapped_add_tracks: "mapped s \<Longrightarrow> mapped (fst (add_tracks s p ts))"
  unfolding add_tracks_def by (auto intro!: mapped_pc_update simp: add_tracks_keeps)

lemma mapped_send_offer: "mapped s \<Longrightarrow> mapped (fst (send_offer view s b p u))"
  unfolding send_offer_def
  by (auto split: option.splits dest!: setLocal_keeps intro!: mapped_pc_update)

lemma mapped_frame:
  "peerConnections s' = peerConnections s \<Longrightarrow> pcs s' = pcs s \<Longrightarrow> npcs s' = npcs s \<Longrightarrow>
     mapped s' = mapped s"
  by (simp add: mapped_def live_def)

lemma add_tracks_frame:
  "peerConnections (fst (add_tracks s p ts)) = peerConnections s \<and> npcs (fst (add_tracks s p ts)) = npcs s"
  by (simp add: add_tracks_def)

lemma send_offer_frame:
  "peerConnections (fst (send_offer view s b p u)) = peerConnections s \<and> npcs (fst (send_offer view s b p u)) = npcs s"
  by (simp add: send_offer_def split: option.splits)

lemma mapped_peerConnections_cong:
  "mapped (s\<lparr>peerConnections := m\<rparr>) \<Longrightarrow> peerConnections s' = m \<Longrightarrow> pcs s' = pcs s \<Longrightarrow> npcs s' = npcs s \<Longrightarrow> mapped s'"
  by (simp add: mapped_def live_def)

lemma startCall_user_maps:
  "k \<noteq> u_id user \<Longrightarrow>
     map_of (peerConnections (fst (startCall_user view b stream user acc))) k
       = map_of (peerConnections (fst acc)) k"
  unfolding startCall_user_def
  by (simp add: Let_def split_def send_offer_frame add_tracks_frame createPeerConnection_def update_conv)

lemma mapped_startCall_user:
  assumes "mapped (fst acc)"
    "map_of (peerConnections view) (u_id user) = None \<longrightarrow> map_of (peerConnections (fst acc)) (u_id user) = None"
  shows "mapped (fst (startCall_user view b stream user acc))"
proof (cases "Some (u_id user) \<noteq> map_option u_id (currentUser view) \<and> map_of (peerConnections view) (u_id user) = None")
  case False
  then show ?thesis using assms(1) by (auto simp: startCall_user_def)
next
  case True
  obtain s a where acc: "acc = (s, a)" by (cases acc)
  have m: "mapped s" and f: "map_of (peerConnections s) (u_id user) = None"
    using assms True acc by auto
  let ?s1 = "fst (createPeerConnection s (u_id user))"
  let ?s2 = "fst (add_tracks ?s1 (npcs s) stream)"
  let ?s3 = "?s2\<lparr>peerConnections := AList.update (u_id user) (npcs s) (peerConnections ?s2)\<rparr>"
  have "mapped (?s1\<lparr>peerConnections := AList.update (u_id user) (npcs s) (peerConnections ?s1)\<rparr>)"
    by (rule mapped_create_set[OF m f])
  then have "mapped (fst (add_tracks (?s1\<lparr>peerConnections := AList.update (u_id user) (npcs s) (peerConnections ?s1)\<rparr>) (npcs s) stream))"
    by (rule mapped_add_tracks)
  moreover have "fst (add_tracks (?s1\<lparr>peerConnections := AList.update (u_id user) (npcs s) (peerConnections ?s1)\<rparr>) (npcs s) stream) = ?s3"
    by (simp add: add_tracks_def)
  ultimately have "mapped ?s3" by simp
  then have "mapped (fst (send_offer view ?s3 b (npcs s) (u_id user)))"
    by (rule mapped_send_offer)
  moreover have "fst (startCall_user view b stream user acc) = fst (send_offer view ?s3 b (npcs s) (u_id user))"
    using True acc by (simp add: startCall_user_def Let_def split_def)
  ultimately show ?thesis by simp
qed

lemma mapped_startCall_fold:
  assumes "mapped (fst acc)" "distinct (map u_id us)"
    "\<forall>u\<in>set us. map_of (peerConnections view) (u_id u) = None
        \<longrightarrow> map_of (peerConnections (fst acc)) (u_id u) = None"
  shows "mapped (fst (fold (startCall_user view b stream) us acc))"
  using assms
proof (induction us arbitrary: acc)
  case Nil
  then show ?case by simp
next
  case (Cons u us)
  have 1: "mapped (fst (startCall_user view b stream u acc))"
    using Cons.prems by (intro mapped_startCall_user) auto
  have 2: "\<forall>v\<in>set us. map_of (peerConnections view) (u_id v) = None
        \<longrightarrow> map_of (peerConnections (fst (startCall_user view b stream u acc))) (u_id v) = None"
  proof (intro ballI impI)
    fix v assume v: "v \<in> set us" and n: "map_of (peerConnections view) (u_id v) = None"
    have "u_id v \<noteq> u_id u" using Cons.prems(2) v by (metis distinct.simps(2) imageI list.simps(9) list.set_map)
    then show "map_of (peerConnections (fst (startCall_user view b stream u acc))) (u_id v) = None"
      using Cons.prems(3) v n by (simp add: startCall_user_maps)
  qed
  show ?case using Cons.IH[OF 1 _ 2] Cons.prems(2) by simp
qed

lemma mapped_startCall:
  assumes "mapped s" "distinct (map u_id (users_c s))"
  shows "mapped (fst (startCall s s b))"
proof (cases "b_getUserMedia b")
  case None
  then show ?thesis using assms by (simp add: startCall_def)
next
  case (Some stream)
  have "mapped (fst (s\<lparr>localStream := Some stream\<rparr>, []::client_action list))"
    using assms(1) by (simp add: mapped_def live_def)
  from mapped_startCall_fold[OF this assms(2), of s b stream] show ?thesis
    using Some by (simp add: startCall_def)
qed

lemma mapped_user_joined:
  assumes "mapped s"
  shows "mapped (fst (socket_on_user_joined s s b user us))"
proof (cases "localStream s")
  case None
  then show ?thesis using assms by (simp add: socket_on_user_joined_def mapped_def live_def)
next
  case (Some stream)
  show ?thesis
  proof (cases "Some (u_id user) \<noteq> map_option u_id (currentUser s)
             \<and> map_of (peerConnections s) (u_id user) = None
             \<and> u_id user \<notin> connectionAttempts s")
    case False
    then show ?thesis using assms Some
      by (auto simp: socket_on_user_joined_def mapped_def live_def)
  next
    case True
    let ?s1 = "s\<lparr>users_c := us, connectionAttempts := insert (u_id user) (connectionAttempts s)\<rparr>"
    let ?s2 = "fst (createPeerConnection ?s1 (u_id user))"
    let ?s2m = "?s2\<lparr>peerConnections := AList.update (u_id user) (npcs ?s1) (peerConnections ?s2)\<rparr>"
    let ?s3 = "fst (add_tracks ?s2 (npcs s) stream)"
    let ?s4 = "?s3\<lparr>peerConnections := AList.update (u_id user) (npcs s) (peerConnections ?s3)\<rparr>"
    let ?s5 = "fst (send_offer s ?s4 b (npcs s) (u_id user))"
    have m1: "mapped ?s1" using assms by (simp add: mapped_def live_def)
    have f1: "map_of (peerConnections ?s1) (u_id user) = None" using True by simp
    have "mapped ?s2m" by (rule mapped_create_set[OF m1 f1])
    then have "mapped (fst (add_tracks ?s2m (npcs s) stream))" by (rule mapped_add_tracks)
    moreover have "fst (add_tracks ?s2m (npcs s) stream) = ?s4" by (simp add: add_tracks_def)
    ultimately have "mapped ?s4" by simp
    then have m5: "mapped ?s5" by (rule mapped_send_offer)
    have "fst (socket_on_user_joined s s b user us) = ?s5
        \<or> fst (socket_on_user_joined s s b user us) = ?s5\<lparr>connectionAttempts := connectionAttempts ?s5 - {u_id user}\<rparr>"
      using True Some by (simp add: socket_on_user_joined_def Let_def split_def)
    then show ?thesis using m5 by (auto simp: mapped_def live_def)
  qed
qed

lemma close_all_stays:
  "signalingState (h p) = Closed \<Longrightarrow>
     signalingState (fold (\<lambda>(userId, p) h. h(p := rtc_close (h p))) m h p) = Closed"
  by (induction m arbitrary: h) (auto simp: rtc_close_def split_def)

lemma close_all_closes:
  "(k, p) \<in> set m \<Longrightarrow>
     signalingState (fold (\<lambda>(userId, p) h. h(p := rtc_close (h p))) m h p) = Closed"
proof (induction m arbitrary: h)
  case Nil
  then show ?case by simp
next
  case (Cons a m)
  show ?case
  proof (cases "a = (k, p)")
    case True
    have "signalingState ((h(p := rtc_close (h p))) p) = Closed" by (simp add: rtc_close_def)
    then have "signalingState (fold (\<lambda>(userId, p) h. h(p := rtc_close (h p))) m
                 (h(p := rtc_close (h p))) p) = Closed"
      by (rule close_all_stays[of "h(p := rtc_close (h p))" p m])
    then show ?thesis unfolding True by (simp only: fold.simps o_apply case_prod_conv)
  next
    case False
    then have "(k, p) \<in> set m" using Cons.prems by simp
    from Cons.IH[OF this] show ?thesis by simp
  qed
qed

lemma mapped_leaveCall: "mapped s \<Longrightarrow> mapped (fst (leaveCall s))"
proof -
  assume m: "mapped s"
  have "\<not> live (fst (leaveCall s)) p" for p
  proof
    assume l: "live (fst (leaveCall s)) p"
    show False
    proof (cases "live s p")
      case True
      then have "(pc_userId (pcs s p), p) \<in> set (peerConnections s)"
        using m by (auto simp: mapped_def dest: map_of_SomeD)
      from close_all_closes[OF this, of "pcs s"] l show False
        by (simp add: live_def leaveCall_def)
    next
      case False
      with l have "signalingState (pcs s p) = Closed"
        by (auto simp: live_def leaveCall_def)
      from close_all_stays[of "pcs s" p "peerConnections s"] this l show False
        by (simp add: live_def leaveCall_def)
    qed
  qed
  then show ?thesis by (simp add: mapped_def)
qed

lemma mapped_onconnectionstatechange: "mapped s \<Longrightarrow> mapped (fst (onconnectionstatechange s s p st))"
proof -
  assume m: "mapped s"
  have "mapped (s\<lparr>pcs := (pcs s)(p := (pcs s p)\<lparr>connectionState := st\<rparr>)\<rparr>)"
    by (rule mapped_pc_update[OF m]) simp_all
  then show ?thesis
    by (auto simp: onconnectionstatechange_def Let_def mapped_cleanup)
qed


lemma cleanup_users: "users_c (fst (cleanupPeerConnection view s u)) = users_c s"
  by (simp add: cleanupPeerConnection_def split: option.splits)

lemma users_user_joined: "users_c (fst (socket_on_user_joined s s b user us)) = us"
  by (simp add: socket_on_user_joined_def Let_def split_def send_offer_def add_tracks_def
      createPeerConnection_def split: option.splits)

lemma users_handleOffer: "users_c (fst (handleOffer s s b d u)) = users_c s"
  by (simp add: handleOffer_def handleOffer_try_def Let_def split_def cleanupPeerConnection_def
      createPeerConnection_def split: option.splits)

lemma users_handleAnswer: "users_c (fst (handleAnswer view s b d u)) = users_c s"
  by (simp add: handleAnswer_def split: option.splits)

lemma users_handleIceCandidate: "users_c (fst (handleIceCandidate view s b c u)) = users_c s"
  by (simp add: handleIceCandidate_def split: option.splits)

lemma users_startCall_user: "users_c (fst (startCall_user view b stream u acc)) = users_c (fst acc)"
  by (simp add: startCall_user_def Let_def split_def send_offer_def add_tracks_def
      createPeerConnection_def split: option.splits)

lemma users_startCall_fold: "users_c (fst (fold (startCall_user view b stream) us acc)) = users_c (fst acc)"
  by (induction us arbitrary: acc) (simp_all add: users_startCall_user)

lemma users_startCall: "users_c (fst (startCall s s b)) = users_c s"
  by (simp add: startCall_def users_startCall_fold split: option.splits)

lemma mapped_user_left: "mapped s \<Longrightarrow> mapped (fst (socket_on_user_left s s u us))"
proof -
  assume "mapped s"
  then have "mapped (fst (cleanupPeerConnection s s u))" by (rule mapped_cleanup) simp
  then show ?thesis by (simp add: socket_on_user_left_def split_def Let_def mapped_def live_def)
qed

lemma users_user_left: "users_c (fst (socket_on_user_left s s u us)) = us"
  by (simp add: socket_on_user_left_def split_def Let_def)

lemma users_onconnectionstatechange: "users_c (fst (onconnectionstatechange s s p st)) = users_c s"
  by (simp add: onconnectionstatechange_def Let_def cleanup_users)

lemma good_listener:
  "good s \<Longrightarrow> wf_event (Received ev, b) \<Longrightarrow> good (fst (listener s s b ev))"
  by (cases ev)
     (auto simp: good_def mapped_handleOffer mapped_handleAnswer mapped_handleIceCandidate
        mapped_user_joined users_user_joined users_handleOffer users_handleAnswer
        users_handleIceCandidate mapped_user_left users_user_left
        intro: mapped_frame[THEN iffD2])

lemma good_step: "good s \<Longrightarrow> wf_event ev \<Longrightarrow> good (fst (fresh_step s ev))"
proof (cases "(s, ev)" rule: fresh_step.cases)
  case (2 s' e b)
  assume "good s" "wf_event ev"
  then show ?thesis using 2 by (auto simp: socket_on_def good_listener)
next
  case (3 s' b)
  assume "good s" "wf_event ev"
  then show ?thesis using 3 by (auto simp: good_def mapped_startCall users_startCall)
next
  case (4 s' p st b)
  assume "good s" "wf_event ev"
  then show ?thesis using 4
    by (simp add: good_def mapped_onconnectionstatechange users_onconnectionstatechange)
next
  case (10 s' b)
  assume "good s" "wf_event ev"
  then show ?thesis using 10 by (auto simp: good_def mapped_leaveCall) (simp add: leaveCall_def)
qed (auto simp: good_def mapped_def live_def onicecandidate_def createRoom_def joinRoom_def
       sendMessage_def toggleAudio_def split: option.splits list.splits)

lemma good_run: "good s \<Longrightarrow> \<forall>ev\<in>set evs. wf_event ev \<Longrightarrow> good (fresh_run s evs)"
  by (induction evs arbitrary: s) (simp_all add: good_step)

lemma created_cleanup: "NewPeerConnection q u \<notin> set (snd (cleanupPeerConnection view s v))"
  by (simp add: cleanupPeerConnection_def split: option.splits)

lemma created_try: "NewPeerConnection q u \<notin> set (snd (handleOffer_try view s b p d v))"
  by (simp add: handleOffer_try_def emit_if_socket_def split: option.splits)

lemma created_handleOffer:
  assumes "NewPeerConnection q u \<in> set (snd (handleOffer s s b d v))"
  shows "u = v \<and> (\<forall>p. map_of (peerConnections s) v = Some p \<longrightarrow> signalingState (pcs s p) = Closed)"
  using assms
  by (auto simp: handleOffer_def Let_def split_def created_try created_cleanup
      createPeerConnection_def split: option.splits if_splits)

lemma created_send_offer: "NewPeerConnection q u \<notin> set (fst (snd (send_offer view s b p v)))"
  by (simp add: send_offer_def emit_if_socket_def split: option.splits)

lemma created_add_tracks: "NewPeerConnection q u \<notin> set (snd (add_tracks s p ts))"
  by (auto simp: add_tracks_def)

lemma created_user_joined:
  assumes "NewPeerConnection q u \<in> set (snd (socket_on_user_joined s s b user us))"
  shows "u = u_id user \<and> map_of (peerConnections s) u = None \<and> u \<notin> connectionAttempts s
         \<and> localStream s \<noteq> None"
  using assms
  by (auto simp: socket_on_user_joined_def Let_def split_def created_send_offer created_add_tracks
      createPeerConnection_def split: option.splits if_splits)

lemma created_startCall_user:
  assumes "NewPeerConnection q u \<in> set (snd (startCall_user view b stream user acc))"
  shows "NewPeerConnection q u \<in> set (snd acc) \<or> map_of (peerConnections view) u = None"
  using assms
  by (auto simp: startCall_user_def Let_def split_def created_send_offer created_add_tracks
      createPeerConnection_def split: option.splits if_splits)

lemma created_startCall_fold:
  assumes "NewPeerConnection q u \<in> set (snd (fold (startCall_user view b stream) us acc))"
  shows "NewPeerConnection q u \<in> set (snd acc) \<or> map_of (peerConnections view) u = None"
  using assms
proof (induction us arbitrary: acc)
  case Nil
  then show ?case by simp
next
  case (Cons a us)
  from Cons.prems have "NewPeerConnection q u
      \<in> set (snd (fold (startCall_user view b stream) us (startCall_user view b stream a acc)))"
    by simp
  from Cons.IH[OF this] show ?case
  proof
    assume "NewPeerConnection q u \<in> set (snd (startCall_user view b stream a acc))"
    then show ?thesis by (rule created_startCall_user)
  next
    assume "map_of (peerConnections view) u = None"
    then show ?thesis by simp
  qed
qed

lemma created_startCall:
  assumes "NewPeerConnection q u \<in> set (snd (startCall s s b))"
  shows "map_of (peerConnections s) u = None"
  using assms by (auto simp: startCall_def split: option.splits dest!: created_startCall_fold)

lemma created_listener:
  assumes "NewPeerConnection q u \<in> set (snd (listener s s b ev))"
  shows "\<forall>p. map_of (peerConnections s) u = Some p \<longrightarrow> signalingState (pcs s p) = Closed"
  using assms
  by (cases ev)
     (auto simp: socket_on_user_left_def Let_def split_def created_cleanup handleAnswer_def
        handleIceCandidate_def split: option.splits if_splits
        dest!: created_handleOffer created_user_joined)

lemma created_step:
  assumes "NewPeerConnection q u \<in> set (snd (fresh_step s ev))"
  shows "\<forall>p. map_of (peerConnections s) u = Some p \<longrightarrow> signalingState (pcs s p) = Closed"
proof (cases "(s, ev)" rule: fresh_step.cases)
  case (2 s' e b)
  then show ?thesis using assms created_listener[of q u s b e]
    by (auto simp: socket_on_def split: if_splits)
next
  case (3 s' b)
  then show ?thesis using assms by (auto split: if_splits dest!: created_startCall)
next
  case (4 s' p st b)
  then show ?thesis using assms
    by (auto simp: onconnectionstatechange_def Let_def created_cleanup split: if_splits)
next
  case (10 s' b)
  then show ?thesis using assms by (auto simp: leaveCall_def)
qed (use assms in \<open>auto simp: onicecandidate_def createRoom_def joinRoom_def
       sendMessage_def toggleAudio_def emit_if_socket_def split: option.splits list.splits if_splits\<close>)

lemma try_keeps_map: "peerConnections (fst (handleOffer_try view s b p d v)) = peerConnections s"
  by (simp add: handleOffer_try_def split: option.splits)

lemma try_keeps_open:
  "signalingState (pcs s p) \<noteq> Closed \<Longrightarrow>
     signalingState (pcs (fst (handleOffer_try view s b p d v)) p) \<noteq> Closed"
  by (auto simp: handleOffer_try_def split: option.splits dest!: setRemote_keeps setLocal_keeps)

lemma handleOffer_leaves_open:
  "\<exists>p. map_of (peerConnections (fst (handleOffer s s b d v))) v = Some p
       \<and> signalingState (pcs (fst (handleOffer s s b d v)) p) \<noteq> Closed"
proof (cases "\<exists>p. map_of (peerConnections s) v = Some p \<and> signalingState (pcs s p) \<noteq> Closed")
  case True
  then obtain p where p: "map_of (peerConnections s) v = Some p" "signalingState (pcs s p) \<noteq> Closed"
    by blast
  then have "fst (handleOffer s s b d v) = fst (handleOffer_try s s b p d v)"
    by (simp add: handleOffer_def split_def)
  then show ?thesis using p by (auto simp: try_keeps_map try_keeps_open)
next
  case False
  define s1 where "s1 = (case map_of (peerConnections s) v of None \<Rightarrow> s | Some p \<Rightarrow> fst (cleanupPeerConnection s s v))"
  define s2 where "s2 = (fst (createPeerConnection s1 v))\<lparr>peerConnections :=
      AList.update v (npcs s1) (peerConnections (fst (createPeerConnection s1 v)))\<rparr>"
  have eq: "fst (handleOffer s s b d v) = fst (handleOffer_try s s2 b (npcs s1) d v)"
    using False by (auto simp: handleOffer_def split_def Let_def s1_def s2_def split: option.splits)
  have "map_of (peerConnections s2) v = Some (npcs s1)"
    by (simp add: s2_def update_conv)
  moreover have "signalingState (pcs s2 (npcs s1)) \<noteq> Closed"
    by (simp add: s2_def createPeerConnection_def rtc_new_def)
  ultimately show ?thesis unfolding eq
    by (auto simp: try_keeps_map try_keeps_open)
qed

lemma duplicate_offer_creates_nothing:
  "NewPeerConnection q u \<notin> set (snd (handleOffer (fst (handleOffer s s b d v)) (fst (handleOffer s s b d v)) b' d' v))"
proof
  assume "NewPeerConnection q u \<in> set (snd (handleOffer (fst (handleOffer s s b d v)) (fst (handleOffer s s b d v)) b' d' v))"
  from created_handleOffer[OF this] handleOffer_leaves_open[of s b d v] show False by auto
qed

lemma user_joined_frame:
  "localStream (fst (socket_on_user_joined s s b user us)) = localStream s
   \<and> currentUser (fst (socket_on_user_joined s s b user us)) = currentUser s"
  by (simp add: socket_on_user_joined_def Let_def split_def send_offer_def add_tracks_def
      createPeerConnection_def split: option.splits)

lemma user_joined_blocks:
  assumes "NewPeerConnection q u \<in> set (snd (socket_on_user_joined s s b user us))"
  shows "map_of (peerConnections (fst (socket_on_user_joined s s b user us))) (u_id user) = Some q"
  using assms
  by (auto simp: socket_on_user_joined_def Let_def split_def send_offer_def add_tracks_def
      createPeerConnection_def update_conv emit_if_socket_def split: option.splits if_splits)

lemma user_joined_quiet:
  assumes "\<forall>q. NewPeerConnection q (u_id user) \<notin> set (snd (socket_on_user_joined s s b user us))"
  shows "peerConnections (fst (socket_on_user_joined s s b user us)) = peerConnections s
       \<and> connectionAttempts (fst (socket_on_user_joined s s b user us)) = connectionAttempts s"
  using assms
  by (auto simp: socket_on_user_joined_def Let_def split_def send_offer_def add_tracks_def
      createPeerConnection_def update_conv emit_if_socket_def split: option.splits if_splits)

lemma duplicate_join_creates_nothing:
  "NewPeerConnection q u
     \<notin> set (snd (socket_on_user_joined (fst (socket_on_user_joined s s b user us)) (fst (socket_on_user_joined s s b user us)) b' user us'))"
proof
  let ?s1 = "fst (socket_on_user_joined s s b user us)"
  assume a: "NewPeerConnection q u \<in> set (snd (socket_on_user_joined ?s1 ?s1 b' user us'))"
  from created_user_joined[OF a] have u: "u = u_id user"
    and n: "map_of (peerConnections ?s1) (u_id user) = None"
    and c: "u_id user \<notin> connectionAttempts ?s1"
    and l: "localStream ?s1 \<noteq> None" by auto
  have first_none: "\<forall>q. NewPeerConnection q (u_id user) \<notin> set (snd (socket_on_user_joined s s b user us))"
    using user_joined_blocks[of _ "u_id user" s b user us] n by auto
  from user_joined_quiet[OF this] n c l user_joined_frame[of s b user us]
  have g: "map_of (peerConnections s) (u_id user) = None" "u_id user \<notin> connectionAttempts s"
    "localStream s \<noteq> None" by auto
  have cu: "Some (u_id user) \<noteq> map_option u_id (currentUser s)"
    using a user_joined_frame[of s b user us]
    by (auto simp: socket_on_user_joined_def[of ?s1] Let_def split: option.splits if_splits)
  from g cu have "NewPeerConnection (npcs s) (u_id user) \<in> set (snd (socket_on_user_joined s s b user us))"
    by (auto simp: socket_on_user_joined_def Let_def split_def createPeerConnection_def)
  with first_none show False by blast
qed

lemma fresh_views_one_live:
  assumes "\<forall>ev\<in>set evs. wf_event ev"
  shows "one_live_per_remote (fresh_run init_client evs)"
proof -
  have "good init_client"
    by (simp add: good_def mapped_init) (simp add: init_client_def)
  then have "good (fresh_run init_client evs)"
    using assms by (rule good_run)
  then show ?thesis by (simp add: good_def mapped_one_live)
qed

lemma user_joined_attempts:
  assumes "localStream s = Some stream" "Some (u_id user) \<noteq> map_option u_id (currentUser s)"
    "map_of (peerConnections s) (u_id user) = None" "u_id user \<notin> connectionAttempts s"
  shows "connectionAttempts (fst (socket_on_user_joined s s b user us))
       = (if b_createOffer b (u_id user) = None then connectionAttempts s
          else insert (u_id user) (connectionAttempts s))"
  using assms
  by (auto simp: socket_on_user_joined_def Let_def split_def send_offer_def add_tracks_def
      createPeerConnection_def rtc_createOffer_def rtc_new_def add_tracks_keeps
      split: option.splits)

section \<open>The client: what an offer and an answer leave untouched\<close>

text \<open>Whatever state a listener reads: an answer changes no connection that is not in
  \<^verbatim>\<open>have-local-offer\<close>, and an offer changes no connection that is in
  \<^verbatim>\<open>have-local-offer\<close> or \<^verbatim>\<open>have-remote-offer\<close>.\<close>

lemma handleAnswer_frame:
  "signalingState (pcs s p) \<noteq> HaveLocalOffer \<Longrightarrow>
     pcs (fst (handleAnswer view s b d sender)) p = pcs s p"
  by (auto simp: handleAnswer_def split: option.splits)

lemma socket_on_answer_frame:
  "signalingState (pcs s p) \<noteq> HaveLocalOffer \<Longrightarrow>
     pcs (fst (socket_on view s b (AnswerEv d sender))) p = pcs s p"
  by (simp add: socket_on_def handleAnswer_frame)

lemma socket_receive_answer_frame:
  "signalingState (pcs s p) \<noteq> HaveLocalOffer \<Longrightarrow>
     pcs (fst (socket_receive views s b (AnswerEv d sender))) p = pcs s p"
proof -
  have "signalingState (pcs s p) \<noteq> HaveLocalOffer \<Longrightarrow>
     pcs (fst (fold (\<lambda>view (s1, a1). let (s2, a2) = socket_on view s1 b (AnswerEv d sender)
                       in (s2, a1 @ a2)) views (s, a))) p = pcs s p" for a
  proof (induction views arbitrary: s a)
    case Nil
    then show ?case by simp
  next
    case (Cons v views)
    obtain s2 a2 where r: "socket_on v s b (AnswerEv d sender) = (s2, a2)"
      by (cases "socket_on v s b (AnswerEv d sender)")
    have k: "pcs s2 p = pcs s p"
      using socket_on_answer_frame[OF Cons.prems, of v b d sender] r by simp
    then have "signalingState (pcs s2 p) \<noteq> HaveLocalOffer" using Cons.prems by simp
    from Cons.IH[OF this, of "a @ a2"] k r show ?case by simp
  qed
  then show "signalingState (pcs s p) \<noteq> HaveLocalOffer \<Longrightarrow> ?thesis"
    by (simp add: socket_receive_def)
qed

lemma try_frame:
  "signalingState (pcs s q) = HaveLocalOffer \<or> signalingState (pcs s q) = HaveRemoteOffer \<Longrightarrow>
     pcs (fst (handleOffer_try view s b p d sender)) q = pcs s q"
  by (auto simp: handleOffer_try_def split: option.splits)

lemma handleOffer_frame:
  assumes "q < npcs s"
    "signalingState (pcs s q) = HaveLocalOffer \<or> signalingState (pcs s q) = HaveRemoteOffer"
  shows "pcs (fst (handleOffer view s b d sender)) q = pcs s q"
proof (cases "\<exists>p. map_of (peerConnections view) sender = Some p \<and> signalingState (pcs s p) \<noteq> Closed")
  case True
  then obtain p where p: "map_of (peerConnections view) sender = Some p"
    "signalingState (pcs s p) \<noteq> Closed" by blast
  then have "fst (handleOffer view s b d sender) = fst (handleOffer_try view s b p d sender)"
    by (simp add: handleOffer_def split_def)
  then show ?thesis using assms(2) by (simp add: try_frame)
next
  case False
  define s1 where "s1 = (case map_of (peerConnections view) sender of None \<Rightarrow> s
      | Some p \<Rightarrow> fst (cleanupPeerConnection view s sender))"
  define s2 where "s2 = (fst (createPeerConnection s1 sender))\<lparr>peerConnections :=
      AList.update sender (npcs s1) (peerConnections (fst (createPeerConnection s1 sender)))\<rparr>"
  have eq: "fst (handleOffer view s b d sender) = fst (handleOffer_try view s2 b (npcs s1) d sender)"
    using False by (auto simp: handleOffer_def split_def Let_def s1_def s2_def split: option.splits)
  have n1: "npcs s1 = npcs s" by (simp add: s1_def cleanup_npcs split: option.splits)
  have k1: "pcs s1 q = pcs s q"
    using False assms(2)
    by (auto simp: s1_def cleanupPeerConnection_def rtc_close_def split: option.splits)
  have k2: "pcs s2 q = pcs s q"
    using k1 n1 assms(1) by (simp add: s2_def createPeerConnection_def)
  show ?thesis unfolding eq using k2 assms(2) try_frame[of s2 q view b "npcs s1" d sender]
    by simp
qed

lemma handleOffer_npcs: "npcs s \<le> npcs (fst (handleOffer view s b d sender))"
  by (auto simp: handleOffer_def handleOffer_try_def Let_def split_def cleanupPeerConnection_def
      createPeerConnection_def split: option.splits)

lemma socket_receive_offer_frame:
  assumes "q < npcs s"
    "signalingState (pcs s q) = HaveLocalOffer \<or> signalingState (pcs s q) = HaveRemoteOffer"
  shows "pcs (fst (socket_receive views s b (OfferEv d sender))) q = pcs s q"
proof -
  have "q < npcs s \<Longrightarrow>
     signalingState (pcs s q) = HaveLocalOffer \<or> signalingState (pcs s q) = HaveRemoteOffer \<Longrightarrow>
     pcs (fst (fold (\<lambda>view (s1, a1). let (s2, a2) = socket_on view s1 b (OfferEv d sender)
                       in (s2, a1 @ a2)) views (s, a))) q = pcs s q" for a
  proof (induction views arbitrary: s a)
    case Nil
    then show ?case by simp
  next
    case (Cons v views)
    obtain s2 a2 where r: "socket_on v s b (OfferEv d sender) = (s2, a2)"
      by (cases "socket_on v s b (OfferEv d sender)")
    then have s2: "s2 = fst (handleOffer v s b d sender)"
      by (simp add: socket_on_def socket_listeners_def)
    have k: "pcs s2 q = pcs s q"
      unfolding s2 by (rule handleOffer_frame[OF Cons.prems])
    have n: "q < npcs s2" unfolding s2 using Cons.prems(1) handleOffer_npcs[of s v b d sender]
      by simp
    have st: "signalingState (pcs s2 q) = HaveLocalOffer \<or> signalingState (pcs s2 q) = HaveRemoteOffer"
      using k Cons.prems(2) by simp
    from Cons.IH[OF n st, of "a @ a2"] k r show ?case by simp
  qed
  then show ?thesis using assms by (simp add: socket_receive_def)
qed

lemma answer_stale_everywhere:
  assumes "\<forall>view\<in>set views. \<forall>p. map_of (peerConnections view) sender = Some p \<longrightarrow>
             signalingState (pcs s p) \<noteq> HaveLocalOffer"
  shows "socket_receive views s b (AnswerEv d sender) = (s, [])"
  using assms unfolding socket_receive_def
  by (induction views) (auto simp: socket_on_def socket_listeners_def handleAnswer_def
      split: option.splits)

lemma media_change_no_listener:
  "socket_receive views s b (UserMediaChanged userId enabled) = (s, [])"
  unfolding socket_receive_def
  by (induction views) (simp_all add: socket_on_def socket_listeners_def)

section \<open>The client: the concrete runs\<close>

lemmas client_defs = socket_on_def socket_listeners_def socket_on_user_joined_def
  socket_on_user_left_def startCall_def startCall_user_def send_offer_def add_tracks_def
  createPeerConnection_def cleanupPeerConnection_def handleOffer_def handleOffer_try_def
  handleAnswer_def handleIceCandidate_def emit_if_socket_def createRoom_def joinRoom_def
  leaveCall_def rtc_new_def rtc_close_def rtc_addTrack_def rtc_createOffer_def
  rtc_createAnswer_def rtc_setLocalDescription_def rtc_setRemoteDescription_def
  rtc_addIceCandidate_def init_client_def browser0_def an_offer_def an_answer_def
  alice_def bob_def carol_def Let_def

lemmas runtime_defs = client_step_def rerender_def socket_receive_def init_runtime_def
  render.truncate_def

lemma alice_offering_rt_facts:
  "map peerConnections (registered alice_offering_rt) = [[], [(''y'', 0)]]
   \<and> map socket (registered alice_offering_rt) = [Some ''x'', Some ''x'']
   \<and> peerConnections (page alice_offering_rt) = [(''y'', 0)]
   \<and> npcs (page alice_offering_rt) = 1
   \<and> socket (page alice_offering_rt) = Some ''x''
   \<and> connectionAttempts (page alice_offering_rt) = {}
   \<and> pcs (page alice_offering_rt) 0 = \<lparr>pc_userId = ''y'', signalingState = HaveLocalOffer,
        connectionState = ConnNew, remoteDescription = None, localDescription = Some an_offer,
        pc_tracks = [''mic''], pc_candidates = []\<rparr>"
  by (simp add: alice_offering_rt_def alice_calls_def client_defs runtime_defs)

lemma alice_offering_facts:
  "peerConnections alice_offering = [(''y'', 0)]
   \<and> npcs alice_offering = 1
   \<and> socket alice_offering = Some ''x''
   \<and> pcs alice_offering 0 = \<lparr>pc_userId = ''y'', signalingState = HaveLocalOffer,
        connectionState = ConnNew, remoteDescription = None, localDescription = Some an_offer,
        pc_tracks = [''mic''], pc_candidates = []\<rparr>"
  using alice_offering_rt_facts by (simp add: alice_offering_def)

lemma client_run_append: "client_run rt (xs @ ys) = client_run (client_run rt xs) ys"
  by (induction xs arbitrary: rt) simp_all

lemma alice_glare_eq:
  "alice_glare = page (fst (client_step alice_offering_rt (Received (OfferEv an_offer ''y''), browser0)))"
  by (simp add: alice_glare_def alice_offering_rt_def client_run_append)

text \<open>Bob's client, once it has joined Alice's room and its call starts, sends Alice
  an offer.\<close>

lemma bob_sends_offer:
  "snd (client_step
         (client_run init_runtime
            [(SocketReady ''y'', browser0), (UIJoinRoom ''Bob'' ''AB12CD'', browser0),
             (Received (RoomJoined ''AB12CD'' [alice, bob] []), browser0)])
         (StartCallEffect, browser0))
     = [NewPeerConnection 0 ''x'', PcCall 0 (AddTrack ''mic''), PcCall 0 CreateOffer,
        PcCall 0 (SetLocalDescription an_offer), SockEmit (OfferMsg ''x'' an_offer)]"
  by (simp add: client_defs runtime_defs)

lemma alice_waiting_facts:
  "peerConnections alice_waiting = []
   \<and> npcs alice_waiting = 1
   \<and> socket alice_waiting = Some ''x''
   \<and> currentUser alice_waiting = Some \<lparr>u_id = ''x'', u_username = ''Alice'', u_roomCode = [],
                                        u_isAudioEnabled = True\<rparr>
   \<and> connectionAttempts alice_waiting = {}
   \<and> localStream alice_waiting = Some [\<lparr>t_id = ''mic'', t_enabled = True\<rparr>]"
  by (simp add: alice_waiting_def client_defs)

lemma alice_connected_facts:
  "peerConnections alice_connected = [(''y'', 1)]
   \<and> npcs alice_connected = 2
   \<and> connectionAttempts alice_connected = {''y''}
   \<and> localStream alice_connected = Some [\<lparr>t_id = ''mic'', t_enabled = True\<rparr>]
   \<and> currentUser alice_connected = Some \<lparr>u_id = ''x'', u_username = ''Alice'', u_roomCode = [],
                                        u_isAudioEnabled = True\<rparr>
   \<and> signalingState (pcs alice_connected 1) = HaveLocalOffer"
  using alice_waiting_facts
  by (simp add: alice_connected_def client_defs)

lemma alice_alone_again_facts:
  "peerConnections alice_alone_again = []
   \<and> connectionAttempts alice_alone_again = {''y''}
   \<and> localStream alice_alone_again = Some [\<lparr>t_id = ''mic'', t_enabled = True\<rparr>]
   \<and> currentUser alice_alone_again = Some \<lparr>u_id = ''x'', u_username = ''Alice'',
        u_roomCode = [], u_isAudioEnabled = True\<rparr>
   \<and> signalingState (pcs alice_alone_again 1) = Closed"
  using alice_connected_facts
  by (simp add: alice_alone_again_def socket_on_user_left_def cleanupPeerConnection_def
      rtc_close_def Let_def)

lemma alice_talking_facts:
  "peerConnections alice_talking = [(''y'', 0)]
   \<and> signalingState (pcs alice_talking 0) = Stable
   \<and> remoteDescription (pcs alice_talking 0) = Some an_answer
   \<and> pc_candidates (pcs alice_talking 0) = []"
  using alice_offering_facts
  by (simp add: alice_talking_def handleAnswer_def rtc_setRemoteDescription_def an_answer_def
      browser0_def)

text \<open>Bob's offer arriving at Alice while her own offer to him is out: what the
  registered listeners do.\<close>

lemma alice_glare_step:
  "snd (client_step alice_offering_rt (Received (OfferEv an_offer ''y''), browser0))
     = [NewPeerConnection 1 ''y'', PcCall 1 (SetRemoteDescription an_offer),
        PcCall 1 CreateAnswer, PcCall 1 (SetLocalDescription an_answer),
        SockEmit (AnswerMsg ''y'' an_answer)]
   \<and> pcs alice_glare 0 = pcs (page alice_offering_rt) 0
   \<and> pcs alice_glare 1 = \<lparr>pc_userId = ''y'', signalingState = Stable,
        connectionState = ConnNew, remoteDescription = Some an_offer,
        localDescription = Some an_answer, pc_tracks = [], pc_candidates = []\<rparr>"
proof -
  obtain v0 v1 where vs: "registered alice_offering_rt = [v0, v1]"
    "peerConnections v0 = []" "peerConnections v1 = [(''y'', 0)]"
    "socket v0 = Some ''x''" "socket v1 = Some ''x''"
    using alice_offering_rt_facts by (cases "registered alice_offering_rt") auto
  have step: "socket_receive (registered alice_offering_rt) (page alice_offering_rt) browser0
        (OfferEv an_offer ''y'')
      = (let s = page alice_offering_rt in
         (s\<lparr>pcs := (pcs s)(1 := \<lparr>pc_userId = ''y'', signalingState = Stable,
               connectionState = ConnNew, remoteDescription = Some an_offer,
               localDescription = Some an_answer, pc_tracks = [], pc_candidates = []\<rparr>),
            npcs := 2, peerConnections := [(''y'', 1)]\<rparr>,
          [NewPeerConnection 1 ''y'', PcCall 1 (SetRemoteDescription an_offer),
           PcCall 1 CreateAnswer, PcCall 1 (SetLocalDescription an_answer),
           SockEmit (AnswerMsg ''y'' an_answer)]))"
    using vs alice_offering_rt_facts
    by (simp add: socket_receive_def client_defs)
  show ?thesis
    by (simp add: alice_glare_eq client_step_def step rerender_def Let_def)
qed

section \<open>The client: claims\<close>

text \<open>
  Claim C1, at its failing input. The claim: at a client at most one connection per
  remote id is live at any time, because each of the three places that create one does
  so only if the Map holds no connection for that id that is not closed. The tests are
  there (\<open>fresh_views_one_live\<close>, \<open>created_step\<close>, \<open>duplicate_offer_creates_nothing\<close>
  above: they suffice when the state read is the current one), but they read the state
  of the render that registered the listener, and the listeners of earlier renders are
  never removed. Alice has created a room and Bob has joined; both calls start, so each
  sends the other an offer (\<open>relay_announces_bob\<close>, \<open>bob_sends_offer\<close>,
  \<open>relay_forwards_bobs_offer\<close>). When Alice's call starts, her connection 0 to Bob goes into
  the Map and the listeners are registered a second time. Bob's offer then reaches both
  sets: the first, whose Map is still empty, opens connection 1 to Bob, answers him and
  overwrites the Map entry, while connection 0 is in the current Map and in
  \<^verbatim>\<open>have-local-offer\<close>; the second ignores the offer. Two connections to Bob are live.
\<close>

theorem stale_listener_opens_second_connection:
  "map peerConnections (registered alice_offering_rt) = [[], [(''y'', 0)]]
   \<and> map_of (peerConnections (page alice_offering_rt)) ''y'' = Some 0
   \<and> signalingState (pcs (page alice_offering_rt) 0) = HaveLocalOffer
   \<and> snd (client_step alice_offering_rt (Received (OfferEv an_offer ''y''), browser0))
       = [NewPeerConnection 1 ''y'', PcCall 1 (SetRemoteDescription an_offer),
          PcCall 1 CreateAnswer, PcCall 1 (SetLocalDescription an_answer),
          SockEmit (AnswerMsg ''y'' an_answer)]
   \<and> live alice_glare 0 \<and> pc_userId (pcs alice_glare 0) = ''y''
   \<and> live alice_glare 1 \<and> pc_userId (pcs alice_glare 1) = ''y''"
proof -
  have 1: "map peerConnections (registered alice_offering_rt) = [[], [(''y'', 0)]]
      \<and> map_of (peerConnections (page alice_offering_rt)) ''y'' = Some 0
      \<and> signalingState (pcs (page alice_offering_rt) 0) = HaveLocalOffer"
    using alice_offering_rt_facts by simp
  obtain v0 v1 where vs: "registered alice_offering_rt = [v0, v1]"
    "peerConnections v0 = []" "peerConnections v1 = [(''y'', 0)]"
    "socket v0 = Some ''x''" "socket v1 = Some ''x''"
    using alice_offering_rt_facts by (cases "registered alice_offering_rt") auto
  have step: "socket_receive (registered alice_offering_rt) (page alice_offering_rt) browser0
        (OfferEv an_offer ''y'')
      = (let s = page alice_offering_rt in
         (s\<lparr>pcs := (pcs s)(1 := \<lparr>pc_userId = ''y'', signalingState = Stable,
               connectionState = ConnNew, remoteDescription = Some an_offer,
               localDescription = Some an_answer, pc_tracks = [], pc_candidates = []\<rparr>),
            npcs := 2, peerConnections := [(''y'', 1)]\<rparr>,
          [NewPeerConnection 1 ''y'', PcCall 1 (SetRemoteDescription an_offer),
           PcCall 1 CreateAnswer, PcCall 1 (SetLocalDescription an_answer),
           SockEmit (AnswerMsg ''y'' an_answer)]))"
    using vs alice_offering_rt_facts
    by (simp add: socket_receive_def client_defs)
  show ?thesis
    using 1 alice_offering_rt_facts
    by (simp add: alice_glare_eq client_step_def step rerender_def live_def Let_def)
qed

text \<open>
  Claim C5. \<^verbatim>\<open>handleAnswer\<close> calls \<^verbatim>\<open>setRemoteDescription\<close> only on the connection it
  finds for the sender, with the answer received, and only when that connection is in
  \<^verbatim>\<open>have-local-offer\<close>. In every other state, and when it finds no connection for
  the sender, it returns the state unchanged and calls nothing, so no call can be
  rejected; the same holds of all registered listeners together. A connection that is
  not in \<^verbatim>\<open>have-local-offer\<close> is left as it is, \<^verbatim>\<open>signalingState\<close> included, by the
  handler and by all registered listeners together. In \<^verbatim>\<open>have-local-offer\<close> that one
  call is all the handler does, and when the browser rejects it the \<^verbatim>\<open>catch\<close> leaves
  the state unchanged.
\<close>

theorem answer_applied_only_in_have_local_offer:
  "(PcCall q (SetRemoteDescription d') \<in> set (snd (handleAnswer view s b d sender)) \<longrightarrow>
      map_of (peerConnections view) sender = Some q
      \<and> signalingState (pcs s q) = HaveLocalOffer \<and> d' = d)
   \<and> ((\<forall>p. map_of (peerConnections view) sender = Some p \<longrightarrow>
           signalingState (pcs s p) \<noteq> HaveLocalOffer) \<longrightarrow>
        handleAnswer view s b d sender = (s, []))
   \<and> ((\<forall>v\<in>set views. \<forall>p. map_of (peerConnections v) sender = Some p \<longrightarrow>
           signalingState (pcs s p) \<noteq> HaveLocalOffer) \<longrightarrow>
        socket_receive views s b (AnswerEv d sender) = (s, []))
   \<and> (signalingState (pcs s r) \<noteq> HaveLocalOffer \<longrightarrow>
        pcs (fst (handleAnswer view s b d sender)) r = pcs s r
        \<and> pcs (fst (socket_receive views s b (AnswerEv d sender))) r = pcs s r)
   \<and> (map_of (peerConnections view) sender = Some p \<and> signalingState (pcs s p) = HaveLocalOffer \<longrightarrow>
        snd (handleAnswer view s b d sender) = [PcCall p (SetRemoteDescription d)]
        \<and> (rtc_setRemoteDescription (pcs s p) d (b_setRemote b) = None \<longrightarrow>
             fst (handleAnswer view s b d sender) = s))"
proof (intro conjI)
  show "(\<forall>v\<in>set views. \<forall>p. map_of (peerConnections v) sender = Some p \<longrightarrow>
           signalingState (pcs s p) \<noteq> HaveLocalOffer) \<longrightarrow>
        socket_receive views s b (AnswerEv d sender) = (s, [])"
    using answer_stale_everywhere by blast
next
  show "signalingState (pcs s r) \<noteq> HaveLocalOffer \<longrightarrow>
        pcs (fst (handleAnswer view s b d sender)) r = pcs s r
        \<and> pcs (fst (socket_receive views s b (AnswerEv d sender))) r = pcs s r"
    by (simp add: handleAnswer_frame socket_receive_answer_frame)
qed (auto simp: handleAnswer_def split: option.splits if_splits)

theorem answer_applied_only_in_have_local_offer_witness:
  "PcCall 0 (SetRemoteDescription an_answer)
      \<in> set (snd (handleAnswer alice_offering alice_offering browser0 an_answer ''y''))
   \<and> map_of (peerConnections alice_offering) ''y'' = Some 0
   \<and> signalingState (pcs alice_offering 0) = HaveLocalOffer
   \<and> signalingState (pcs alice_talking 0) = Stable
   \<and> handleAnswer alice_talking alice_talking browser0 an_answer ''y'' = (alice_talking, [])
   \<and> handleAnswer alice_waiting alice_waiting browser0 an_answer ''y'' = (alice_waiting, [])
   \<and> socket_receive (registered alice_offering_rt) alice_talking browser0 (AnswerEv an_answer ''y'')
       = (alice_talking, [])
   \<and> pcs (fst (handleAnswer alice_offering alice_talking browser0 an_answer ''y'')) 0
       = pcs alice_talking 0
   \<and> rtc_setRemoteDescription (pcs alice_offering 0) an_answer False = None
   \<and> fst (handleAnswer alice_offering alice_offering (browser0\<lparr>b_setRemote := False\<rparr>)
            an_answer ''y'')
       = alice_offering"
proof -
  have called: "PcCall 0 (SetRemoteDescription an_answer)
      \<in> set (snd (handleAnswer alice_offering alice_offering browser0 an_answer ''y''))"
    using alice_offering_facts
    by (simp add: handleAnswer_def split: option.splits)
  have rej: "rtc_setRemoteDescription (pcs alice_offering 0) an_answer False = None"
    by (simp add: rtc_setRemoteDescription_def split: option.splits)
  obtain v0 v1 where vs: "registered alice_offering_rt = [v0, v1]"
    "peerConnections v0 = []" "peerConnections v1 = [(''y'', 0)]"
    using alice_offering_rt_facts by (cases "registered alice_offering_rt") auto
  have stale: "\<forall>v\<in>set (registered alice_offering_rt).
      \<forall>p. map_of (peerConnections v) ''y'' = Some p \<longrightarrow>
        signalingState (pcs alice_talking p) \<noteq> HaveLocalOffer"
    using vs alice_talking_facts by auto
  note t1 = answer_applied_only_in_have_local_offer
    [of 0 an_answer alice_offering alice_offering browser0 an_answer "''y''" "[]" 0 0]
  note t2 = answer_applied_only_in_have_local_offer
    [of 0 an_answer alice_talking alice_talking browser0 an_answer "''y''"
        "registered alice_offering_rt" 0 0]
  note t3 = answer_applied_only_in_have_local_offer
    [of 0 an_answer alice_waiting alice_waiting browser0 an_answer "''y''" "[]" 0 0]
  note t4 = answer_applied_only_in_have_local_offer
    [of 0 an_answer alice_offering alice_offering "browser0\<lparr>b_setRemote := False\<rparr>"
        an_answer "''y''" "[]" 0 0]
  note t5 = answer_applied_only_in_have_local_offer
    [of 0 an_answer alice_offering alice_talking browser0 an_answer "''y''" "[]" 0 0]
  show ?thesis
    using t1 t2 t3 t4 t5 called rej stale alice_talking_facts alice_offering_facts
      alice_waiting_facts
    by simp
qed

text \<open>
  The guard of \<^verbatim>\<open>handleOffer\<close>, where it applies. When the Map the handler reads holds a
  connection for the sender and that connection is in \<^verbatim>\<open>have-local-offer\<close> or in
  \<^verbatim>\<open>have-remote-offer\<close>, the handler returns the state unchanged, having created no
  connection, set no description, created no answer and emitted nothing. And whatever
  Map a listener reads, a connection in one of these two states is itself left as it
  is. Neither says that the offer is ignored: the handler tests the connection that the
  Map of its own render holds, and creates one when that Map holds none.
\<close>

lemma offer_guard_where_connection_found:
  "(map_of (peerConnections view) sender = Some p
      \<and> (signalingState (pcs s p) = HaveLocalOffer \<or> signalingState (pcs s p) = HaveRemoteOffer)
     \<longrightarrow> handleOffer view s b d sender = (s, []))
   \<and> (q < npcs s
      \<and> (signalingState (pcs s q) = HaveLocalOffer \<or> signalingState (pcs s q) = HaveRemoteOffer)
     \<longrightarrow> pcs (fst (handleOffer view s b d sender)) q = pcs s q
        \<and> pcs (fst (socket_receive views s b (OfferEv d sender))) q = pcs s q)"
  by (auto simp: handleOffer_frame socket_receive_offer_frame)
     (auto simp: handleOffer_def handleOffer_try_def)

text \<open>
  Claim C6, at its failing input. The claim: an offer that arrives while the connection
  to its sender is in \<^verbatim>\<open>have-local-offer\<close> or \<^verbatim>\<open>have-remote-offer\<close> is ignored, the
  handler setting no remote description and creating no answer. Alice has sent her offer
  to Bob: her connection 0 to him is in \<^verbatim>\<open>have-local-offer\<close> and the Map of the page
  holds it. Two sets of listeners are on her socket, and the Map of the older one is
  empty. Bob's offer arrives. The older \<^verbatim>\<open>offer\<close> listener finds no connection, so the
  guard tests the connection 1 it has just created, which is \<^verbatim>\<open>stable\<close>: the offer is
  set as its remote description, an answer is created and set, and the answer is sent to
  Bob. The newer listener reads connection 0 and returns at the guard. The offer is
  answered while Alice's own offer is out.
\<close>

theorem colliding_offer_answered_by_stale_listener:
  "map_of (peerConnections (page alice_offering_rt)) ''y'' = Some 0
   \<and> signalingState (pcs (page alice_offering_rt) 0) = HaveLocalOffer
   \<and> map peerConnections (registered alice_offering_rt) = [[], [(''y'', 0)]]
   \<and> client_step alice_offering_rt (Received (OfferEv an_offer ''y''), browser0)
       \<noteq> (alice_offering_rt, [])
   \<and> PcCall 1 (SetRemoteDescription an_offer)
       \<in> set (snd (client_step alice_offering_rt (Received (OfferEv an_offer ''y''), browser0)))
   \<and> PcCall 1 CreateAnswer
       \<in> set (snd (client_step alice_offering_rt (Received (OfferEv an_offer ''y''), browser0)))
   \<and> SockEmit (AnswerMsg ''y'' an_answer)
       \<in> set (snd (client_step alice_offering_rt (Received (OfferEv an_offer ''y''), browser0)))
   \<and> pc_userId (pcs alice_glare 1) = ''y''
   \<and> remoteDescription (pcs alice_glare 1) = Some an_offer
   \<and> localDescription (pcs alice_glare 1) = Some an_answer"
proof -
  have "snd (client_step alice_offering_rt (Received (OfferEv an_offer ''y''), browser0))
      \<noteq> []"
    using alice_glare_step by simp
  then have "client_step alice_offering_rt (Received (OfferEv an_offer ''y''), browser0)
       \<noteq> (alice_offering_rt, [])"
    by (metis snd_conv)
  then show ?thesis
    using alice_glare_step alice_offering_rt_facts by simp
qed

text \<open>
  Claim C7, as stated, fails. The claim: a candidate that arrives before the remote
  description is set is buffered and applied later. \<^verbatim>\<open>handleIceCandidate\<close> never looks
  at the remote description and the client keeps no buffer: Alice's connection to Bob has
  her offer out and no remote description; a candidate from Bob is passed to
  \<^verbatim>\<open>addIceCandidate\<close> at once, the call is rejected, and the state after the handler is
  the state before it. When Bob's answer is then applied, the connection has a remote
  description and no candidate.
\<close>

theorem early_candidate_is_dropped:
  "remoteDescription (pcs alice_offering 0) = None
   \<and> handleIceCandidate alice_offering alice_offering browser0 ''candidate 1'' ''y''
       = (alice_offering, [PcCall 0 (AddIceCandidate ''candidate 1'')])
   \<and> remoteDescription (pcs alice_talking 0) = Some an_answer
   \<and> pc_candidates (pcs alice_talking 0) = []"
  using alice_offering_facts alice_talking_facts
  by (simp add: handleIceCandidate_def rtc_addIceCandidate_def)

text \<open>
  Claim C7, amended. For every incoming candidate: when the handler finds a connection
  for the sender that is not closed, \<^verbatim>\<open>addIceCandidate\<close> is called on it at once,
  whether or not a remote description is set, and nothing else is done; if the remote
  description is set and the browser accepts the candidate it is added, and if the call
  is rejected (as it is when no remote description is set) the state is left unchanged,
  the candidate being dropped, not buffered. When the connection is closed or absent,
  the handler calls nothing and leaves the state unchanged.
\<close>

theorem ice_candidate_added_at_once_or_dropped:
  "(map_of (peerConnections view) sender = Some p \<and> signalingState (pcs s p) \<noteq> Closed \<longrightarrow>
      snd (handleIceCandidate view s b c sender) = [PcCall p (AddIceCandidate c)]
      \<and> (remoteDescription (pcs s p) \<noteq> None \<and> b_addIce b \<longrightarrow>
           fst (handleIceCandidate view s b c sender)
             = s\<lparr>pcs := (pcs s)(p := (pcs s p)\<lparr>pc_candidates := pc_candidates (pcs s p) @ [c]\<rparr>)\<rparr>)
      \<and> (remoteDescription (pcs s p) = None \<or> \<not> b_addIce b \<longrightarrow>
           fst (handleIceCandidate view s b c sender) = s))
   \<and> ((\<forall>p. map_of (peerConnections view) sender = Some p \<longrightarrow>
          signalingState (pcs s p) = Closed) \<longrightarrow>
        handleIceCandidate view s b c sender = (s, []))"
  by (auto simp: handleIceCandidate_def rtc_addIceCandidate_def split: option.splits if_splits)

theorem ice_candidate_added_at_once_or_dropped_witness:
  "map_of (peerConnections alice_offering) ''y'' = Some 0
   \<and> signalingState (pcs alice_offering 0) \<noteq> Closed
   \<and> remoteDescription (pcs alice_offering 0) = None
   \<and> handleIceCandidate alice_offering alice_offering browser0 ''candidate 1'' ''y''
       = (alice_offering, [PcCall 0 (AddIceCandidate ''candidate 1'')])
   \<and> map_of (peerConnections alice_talking) ''y'' = Some 0
   \<and> remoteDescription (pcs alice_talking 0) \<noteq> None
   \<and> pc_candidates
        (pcs (fst (handleIceCandidate alice_talking alice_talking browser0 ''candidate 1'' ''y'')) 0)
       = [''candidate 1'']
   \<and> map_of (peerConnections alice_connected) ''y'' = Some 1
   \<and> signalingState (pcs alice_alone_again 1) = Closed
   \<and> handleIceCandidate alice_connected alice_alone_again browser0 ''candidate 1'' ''y''
       = (alice_alone_again, [])
   \<and> handleIceCandidate alice_alone_again alice_alone_again browser0 ''candidate 1'' ''y''
       = (alice_alone_again, [])"
proof -
  have b: "b_addIce browser0" by (simp add: browser0_def)
  note t1 = ice_candidate_added_at_once_or_dropped
    [of alice_offering "''y''" 0 alice_offering browser0 "''candidate 1''"]
  note t2 = ice_candidate_added_at_once_or_dropped
    [of alice_talking "''y''" 0 alice_talking browser0 "''candidate 1''"]
  note t3 = ice_candidate_added_at_once_or_dropped
    [of alice_connected "''y''" 1 alice_alone_again browser0 "''candidate 1''"]
  note t4 = ice_candidate_added_at_once_or_dropped
    [of alice_alone_again "''y''" 0 alice_alone_again browser0 "''candidate 1''"]
  have 1: "handleIceCandidate alice_offering alice_offering browser0 ''candidate 1'' ''y''
       = (alice_offering, [PcCall 0 (AddIceCandidate ''candidate 1'')])"
    using t1 alice_offering_facts by (simp add: prod_eq_iff)
  have 2: "pc_candidates
        (pcs (fst (handleIceCandidate alice_talking alice_talking browser0 ''candidate 1'' ''y'')) 0)
       = [''candidate 1'']"
    using t2 alice_talking_facts b by simp
  have 3: "handleIceCandidate alice_connected alice_alone_again browser0 ''candidate 1'' ''y''
       = (alice_alone_again, [])"
    using t3 alice_connected_facts alice_alone_again_facts by simp
  have 4: "handleIceCandidate alice_alone_again alice_alone_again browser0 ''candidate 1'' ''y''
       = (alice_alone_again, [])"
    using t4 alice_alone_again_facts by simp
  show ?thesis
    using 1 2 3 4 alice_talking_facts alice_offering_facts alice_alone_again_facts
      alice_connected_facts
    by simp
qed

text \<open>
  Claim C8, at its failing input. The claim: an id put into \<^verbatim>\<open>connectionAttempts\<close> is
  removed again when the attempt succeeds or fails. The \<^verbatim>\<open>user-joined\<close> listener marks
  the id as "having a connection attempt in progress" and removes it in the \<^verbatim>\<open>catch\<close>
  of \<^verbatim>\<open>createOffer\<close> only; the \<^verbatim>\<open>then\<close> branch does not (\<open>user_joined_attempts\<close>
  above is the general statement). Here the listener reads the current state. Bob joins
  while Alice has her microphone open: the connection is created, the offer is sent, and
  Bob's id stays in the set. After Bob has left (his connection closed and removed from
  the Map), a \<^verbatim>\<open>user-joined\<close> for the same id creates no connection and sends no
  offer.
\<close>

theorem attempt_never_cleared_after_success:
  "snd (socket_on_user_joined alice_waiting alice_waiting browser0 bob [alice, bob])
     = [NewPeerConnection 1 ''y'', PcCall 1 (AddTrack ''mic''), PcCall 1 CreateOffer,
        PcCall 1 (SetLocalDescription an_offer), SockEmit (OfferMsg ''y'' an_offer)]
   \<and> ''y'' \<in> connectionAttempts alice_connected
   \<and> map_of (peerConnections alice_alone_again) ''y'' = None
   \<and> ''y'' \<in> connectionAttempts alice_alone_again
   \<and> socket_on_user_joined alice_alone_again alice_alone_again browser0 bob [alice, bob]
       = (alice_alone_again\<lparr>users_c := [alice, bob]\<rparr>, [])"
proof -
  have 1: "snd (socket_on_user_joined alice_waiting alice_waiting browser0 bob [alice, bob])
     = [NewPeerConnection 1 ''y'', PcCall 1 (AddTrack ''mic''), PcCall 1 CreateOffer,
        PcCall 1 (SetLocalDescription an_offer), SockEmit (OfferMsg ''y'' an_offer)]"
    using alice_waiting_facts by (simp add: client_defs)
  have 2: "socket_on_user_joined alice_alone_again alice_alone_again browser0 bob [alice, bob]
       = (alice_alone_again\<lparr>users_c := [alice, bob]\<rparr>, [])"
    using alice_alone_again_facts by (simp add: socket_on_user_joined_def Let_def bob_def)
  show ?thesis using 1 2 alice_connected_facts alice_alone_again_facts by simp
qed

text \<open>
  Claim C10. The effect that registers the listeners for the relay's events does so for
  room-created, room-joined, user-joined, user-left, new-message, error, offer, answer and
  ice-candidate, and for no other; user-media-changed is not among them, nor among the
  socket's own events that the other effect listens to. So when the relay delivers it,
  no listener of any registered set runs and the client, its list of users included, is
  unchanged.
\<close>

theorem media_change_reaches_no_listener:
  "set socket_listeners = {''room-created'', ''room-joined'', ''user-joined'', ''user-left'',
       ''new-message'', ''error'', ''offer'', ''answer'', ''ice-candidate''}
   \<and> event_name (UserMediaChanged userId enabled) \<notin> set (socket_listeners @ connection_listeners)
   \<and> socket_on view s b (UserMediaChanged userId enabled) = (s, [])
   \<and> client_step rt (Received (UserMediaChanged userId enabled), b) = (rt, [])"
  by (auto simp: socket_listeners_def connection_listeners_def socket_on_def client_step_def
      rerender_def media_change_no_listener)

end
